theory Spec2Isabelle
  imports Main "HOL-Library.AList" "HOL-Library.Word"
begin

section \<open>JavaScript values\<close>

text \<open>
  The values that flow through \<^verbatim>\<open>src/index.js\<close>. An object is the list of its own
  properties in insertion order. Functions are not values of this type: a function
  that the program may call lives in a typed position of its own (\<open>hook\<close>, \<open>slot\<close>
  below). Numbers are restricted to the signed 32-bit integers (a word read with
  \<open>sint\<close>), which \<^verbatim>\<open>String\<close> prints with all their digits.
\<close>

datatype jsval =
    JUndefined
  | JNull
  | JBool bool
  | JNum "32 word"
  | JStr string
  | JArr "jsval list"
  | JObj "(string \<times> jsval) list"

type_synonym obj = "(string \<times> jsval) list"

text \<open>Truthiness, as tested by \<^verbatim>\<open>if (x)\<close>, \<^verbatim>\<open>!x\<close>, \<^verbatim>\<open>a || b\<close> and \<^verbatim>\<open>a && b\<close>.\<close>

fun truthy :: "jsval \<Rightarrow> bool" where
  "truthy JUndefined = False"
| "truthy JNull = False"
| "truthy (JBool b) = b"
| "truthy (JNum n) = (n \<noteq> 0)"
| "truthy (JStr s) = (s \<noteq> [])"
| "truthy (JArr xs) = True"
| "truthy (JObj fs) = True"

text \<open>The \<^verbatim>\<open>typeof\<close> operator.\<close>

fun typeof :: "jsval \<Rightarrow> string" where
  "typeof JUndefined = ''undefined''"
| "typeof JNull = ''object''"
| "typeof (JBool b) = ''boolean''"
| "typeof (JNum n) = ''number''"
| "typeof (JStr s) = ''string''"
| "typeof (JArr xs) = ''object''"
| "typeof (JObj fs) = ''object''"

section \<open>Errors\<close>

datatype phase = Before | After

text \<open>
  Every \<^verbatim>\<open>throw\<close> of the source and every exception the runtime or a callee can raise
  is a value:
  \<^item> \<open>ExpectedString\<close>: \<^verbatim>\<open>new TypeError('expected a string')\<close> (lines 451, 480, 496);
  \<^item> \<open>ExpectedPlugin fn node type\<close>: \<^verbatim>\<open>new TypeError('expected plugin to be a function:' + fn)\<close>
    with \<^verbatim>\<open>err.node = node\<close> and \<^verbatim>\<open>err.type = type\<close> (lines 216-219);
  \<^item> \<open>ExpectedObject\<close>: \<^verbatim>\<open>new TypeError('expected comment to be an object')\<close> (line 574);
  \<^item> \<open>NativeTypeError\<close>: a TypeError of the JavaScript runtime (a property read on
    \<^verbatim>\<open>undefined\<close>, a value that is not iterable or not callable);
  \<^item> \<open>Thrown\<close>: an exception thrown by a collaborator or by a registered function,
    with its payload.
\<close>

datatype error =
    ExpectedString
  | ExpectedPlugin jsval jsval phase
  | ExpectedObject
  | NativeTypeError string
  | Thrown jsval

type_synonym 'a result = "error + 'a"

definition andThen :: "'a result \<Rightarrow> ('a \<Rightarrow> 'b result) \<Rightarrow> 'b result" where
  "andThen m f = (case m of Inl e \<Rightarrow> Inl e | Inr x \<Rightarrow> f x)"

section \<open>Property access\<close>

text \<open>
  \<open>fld\<close> reads an own property of an object (\<^verbatim>\<open>undefined\<close> when it is absent),
  \<open>setfld\<close> assigns one, and \<open>assign\<close> is \<^verbatim>\<open>Object.assign({}, a, b)\<close>: the properties of
  \<open>b\<close> override those of \<open>a\<close>.
\<close>

definition fld :: "obj \<Rightarrow> string \<Rightarrow> jsval" where
  "fld o' k = (case map_of o' k of Some v \<Rightarrow> v | None \<Rightarrow> JUndefined)"

definition setfld :: "obj \<Rightarrow> string \<Rightarrow> jsval \<Rightarrow> obj" where
  "setfld o' k v = AList.update k v o'"

definition assign :: "obj \<Rightarrow> obj \<Rightarrow> obj" where
  "assign a b = fold (\<lambda>(k, v) acc. AList.update k v acc) b a"

text \<open>
  \<open>getprop v k\<close> is the expression \<^verbatim>\<open>v.k\<close> on any value, for the property names the
  source reads (\<^verbatim>\<open>type\<close>, \<^verbatim>\<open>value\<close>, \<^verbatim>\<open>description\<close>, \<^verbatim>\<open>tags\<close>, \<^verbatim>\<open>raw\<close>): it throws on
  \<^verbatim>\<open>undefined\<close> and \<^verbatim>\<open>null\<close>, and primitives and arrays have no such property.
\<close>

fun getprop :: "jsval \<Rightarrow> string \<Rightarrow> jsval result" where
  "getprop JUndefined k = Inl (NativeTypeError ''Cannot read properties of undefined'')"
| "getprop JNull k = Inl (NativeTypeError ''Cannot read properties of null'')"
| "getprop (JObj fs) k = Inr (fld fs k)"
| "getprop v k = Inr JUndefined"

section \<open>The instance\<close>

text \<open>
  A handler registered with \<^verbatim>\<open>before\<close> or \<^verbatim>\<open>after\<close> is any value. When it is a function,
  a call \<^verbatim>\<open>fn.call(compiler, node)\<close> may throw, and otherwise gives the value it returns
  together with the state in which it leaves the node it was given (handlers usually
  modify the node in place and return nothing, lines 115-117).
\<close>

datatype hook =
    HookFn "jsval \<Rightarrow> (jsval \<times> jsval) result"
  | HookVal jsval

text \<open>
  The tables \<^verbatim>\<open>plugins.before\<close> and \<^verbatim>\<open>plugins.after\<close> are created by the literal \<^verbatim>\<open>{}\<close>
  (lines 36-41), so a read \<^verbatim>\<open>plugins[key]\<close> finds the own properties and, behind them,
  the properties every object inherits from \<^verbatim>\<open>Object.prototype\<close>.
\<close>

definition object_prototype_keys :: "string list" where
  "object_prototype_keys =
     [''constructor'', ''__defineGetter__'', ''__defineSetter__'', ''hasOwnProperty'',
      ''__lookupGetter__'', ''__lookupSetter__'', ''isPrototypeOf'',
      ''propertyIsEnumerable'', ''toString'', ''valueOf'', ''__proto__'',
      ''toLocaleString'']"

datatype 'a lookup = Own 'a | Inherited | Missing

definition lookup_plain :: "(string \<times> 'a) list \<Rightarrow> string \<Rightarrow> 'a lookup" where
  "lookup_plain tbl k =
     (case map_of tbl k of
        Some v \<Rightarrow> Own v
      | None \<Rightarrow> if k \<in> set object_prototype_keys then Inherited else Missing)"

type_synonym hooks = "(string \<times> hook list) list"

text \<open>
  The source calls every registered handler with the instance as \<^verbatim>\<open>this\<close>
  (\<^verbatim>\<open>fn.call(this, ...)\<close>, lines 288, 345, 385, 458, 487, 503, 527, 551). What a handler is
  given of the instance here: its plain-valued options and its \<^verbatim>\<open>before\<close> and \<^verbatim>\<open>after\<close>
  tables, so that it can do what \<^verbatim>\<open>this.run\<close> does. It is not given the handlers themselves
  (the type would contain itself), nor the tokens, the \<^verbatim>\<open>ast\<close> and the events, and it
  changes nothing of the instance.
\<close>

record self =
  self_settings :: obj
  self_before :: hooks
  self_after :: hooks

text \<open>
  A position that the source tests with \<^verbatim>\<open>typeof x === 'function'\<close> before calling it:
  the property is absent, or holds a value that is not a function, or holds a function.
\<close>

datatype 'f slot = Absent | NotFn jsval | Fn 'f

definition override :: "'f slot \<Rightarrow> 'f slot \<Rightarrow> 'f slot" where
  "override a b = (case b of Absent \<Rightarrow> a | _ \<Rightarrow> b)"

text \<open>
  The handlers the source looks up in \<^verbatim>\<open>parsers\<close>, that is in \<^verbatim>\<open>plugins.middleware\<close> overlaid
  with \<^verbatim>\<open>opts.parse\<close>: \<^verbatim>\<open>comment\<close> (line 287), \<^verbatim>\<open>parseTags\<close> (344), \<^verbatim>\<open>tag\<close> (384),
  \<^verbatim>\<open>inlineTag\<close> (457), \<^verbatim>\<open>type\<close> (486) and \<^verbatim>\<open>paramType\<close> (502). A handler is a function of
  the instance (as far as \<open>self\<close> holds it) and of the arguments it is called with; of
  the options object it receives the plain-valued properties.
  A comment handler returns a comment node, a tag handler a tag node or a falsy value,
  an inline handler an object with \<^verbatim>\<open>value\<close> and \<^verbatim>\<open>tags\<close>.
\<close>

record parsers =
  comment_fn :: "(self \<Rightarrow> jsval \<Rightarrow> obj \<Rightarrow> obj result) slot"
  parseTags_fn :: "(self \<Rightarrow> obj \<Rightarrow> obj \<Rightarrow> jsval result) slot"
  tag_fn :: "(self \<Rightarrow> jsval \<Rightarrow> obj \<Rightarrow> obj option result) slot"
  inlineTag_fn :: "(self \<Rightarrow> string \<Rightarrow> obj \<Rightarrow> obj result) slot"
  type_fn :: "(self \<Rightarrow> string \<Rightarrow> obj \<Rightarrow> obj \<Rightarrow> jsval result) slot"
  paramType_fn :: "(self \<Rightarrow> string \<Rightarrow> obj \<Rightarrow> jsval result) slot"

definition no_parsers :: parsers where
  "no_parsers = \<lparr>comment_fn = Absent, parseTags_fn = Absent, tag_fn = Absent,
     inlineTag_fn = Absent, type_fn = Absent, paramType_fn = Absent\<rparr>"

text \<open>
  An options object: its plain-valued properties (\<^verbatim>\<open>strict\<close>, \<^verbatim>\<open>format\<close>, \<^verbatim>\<open>stripStars\<close>,
  \<^verbatim>\<open>protected\<close> and whatever the collaborators read), the \<^verbatim>\<open>parse\<close> object when there is
  one, and the function-valued \<^verbatim>\<open>extract\<close>, \<^verbatim>\<open>preprocess\<close> and \<^verbatim>\<open>isValid\<close>. The first two are
  called with the instance as \<^verbatim>\<open>this\<close> (lines 527, 551); \<^verbatim>\<open>isValid\<close> is called as a method of
  the options object (line 579). An argument \<^verbatim>\<open>options\<close> that is \<^verbatim>\<open>undefined\<close> is
  \<open>no_options\<close>.
\<close>

record options =
  settings :: obj
  parse_opt :: "parsers option"
  extract_opt :: "(self \<Rightarrow> string \<Rightarrow> obj \<Rightarrow> jsval result) slot"
  preprocess_opt :: "(self \<Rightarrow> jsval \<Rightarrow> obj \<Rightarrow> obj result) slot"
  isValid_opt :: "(jsval \<Rightarrow> jsval result) slot"

definition no_options :: options where
  "no_options = \<lparr>settings = [], parse_opt = None, extract_opt = Absent,
     preprocess_opt = Absent, isValid_opt = Absent\<rparr>"

text \<open>\<^verbatim>\<open>Object.assign({}, this.options, options)\<close> (lines 284, 340, 376, 454, 483, 499, 523).\<close>

definition merge_options :: "options \<Rightarrow> options \<Rightarrow> options" where
  "merge_options a b =
     \<lparr>settings = assign (settings a) (settings b),
      parse_opt = (case parse_opt b of None \<Rightarrow> parse_opt a | Some p \<Rightarrow> Some p),
      extract_opt = override (extract_opt a) (extract_opt b),
      preprocess_opt = override (preprocess_opt a) (preprocess_opt b),
      isValid_opt = override (isValid_opt a) (isValid_opt b)\<rparr>"

text \<open>\<^verbatim>\<open>Object.assign({}, this.plugins.middleware, opts.parse)\<close> (lines 285, 341, 377, 455, 484, 500).\<close>

definition merge_parsers :: "parsers \<Rightarrow> parsers option \<Rightarrow> parsers" where
  "merge_parsers m p =
     (case p of
        None \<Rightarrow> m
      | Some q \<Rightarrow>
          \<lparr>comment_fn = override (comment_fn m) (comment_fn q),
           parseTags_fn = override (parseTags_fn m) (parseTags_fn q),
           tag_fn = override (tag_fn m) (tag_fn q),
           inlineTag_fn = override (inlineTag_fn m) (inlineTag_fn q),
           type_fn = override (type_fn m) (type_fn q),
           paramType_fn = override (paramType_fn m) (paramType_fn q)\<rparr>)"

text \<open>
  The instance (\<^verbatim>\<open>this\<close>, lines 23-42): its options, the three tables of \<^verbatim>\<open>plugins\<close>, the
  tokens pushed by \<^verbatim>\<open>parseComment\<close>, the \<^verbatim>\<open>ast\<close> of the last \<^verbatim>\<open>parse\<close>, and the events
  emitted so far, oldest first. The fields no method of the file reads (\<^verbatim>\<open>comments\<close>,
  \<^verbatim>\<open>cache\<close>, \<^verbatim>\<open>parsers\<close>, \<^verbatim>\<open>plugins.fns\<close>) are left out.
\<close>

record comments =
  options :: options
  middleware :: parsers
  before_tbl :: hooks
  after_tbl :: hooks
  tokens :: "obj list"
  ast :: "obj list"
  emitted :: "(string \<times> jsval) list"

text \<open>The constructor (lines 23-42).\<close>

definition new_Comments :: "options \<Rightarrow> comments" where
  "new_Comments opts =
     \<lparr>options = merge_options no_options opts, middleware = no_parsers,
      before_tbl = [], after_tbl = [], tokens = [], ast = [], emitted = []\<rparr>"

text \<open>The instance as a handler called with it as \<^verbatim>\<open>this\<close> reads it.\<close>

definition self_of :: "comments \<Rightarrow> self" where
  "self_of this =
     \<lparr>self_settings = settings (options this), self_before = before_tbl this,
      self_after = after_tbl this\<rparr>"

text \<open>\<^verbatim>\<open>this.emit(name, value)\<close>: the event is delivered before \<^verbatim>\<open>emit\<close> returns.\<close>

definition emit :: "comments \<Rightarrow> string \<Rightarrow> jsval \<Rightarrow> comments" where
  "emit this name v = this\<lparr>emitted := emitted this @ [(name, v)]\<rparr>"

section \<open>Collaborators\<close>

text \<open>
  The functions \<^verbatim>\<open>src/index.js\<close> calls and does not define: the packages
  \<^verbatim>\<open>tokenize-comment\<close> and \<^verbatim>\<open>extract-comments\<close>, and the module \<^verbatim>\<open>./lib\<close>. They are
  parameters of the model. Each may throw. \<^verbatim>\<open>lib.normalize.examples\<close>, whose result the
  source ignores, is given by the state in which it leaves the comment; the others by
  the value they return. \<^verbatim>\<open>lib.format\<close> is called with the instance as \<^verbatim>\<open>this\<close> (line 316)
  and so is a function of the instance too. \<^verbatim>\<open>lib.allows.type\<close> is given by what it
  returns at line 395 for the token \<^verbatim>\<open>parseTag\<close> was called with.
\<close>

record lib =
  tokenize_comment :: "jsval \<Rightarrow> obj \<Rightarrow> obj result"
  extract_block :: "string \<Rightarrow> obj \<Rightarrow> jsval list result"
  normalize_examples :: "obj \<Rightarrow> obj \<Rightarrow> obj result"
  parse_tag :: "jsval \<Rightarrow> obj option result"
  allows_type :: "jsval \<Rightarrow> bool"
  expects_type :: "obj \<Rightarrow> bool"
  parse_type :: "string \<Rightarrow> obj \<Rightarrow> obj \<Rightarrow> jsval result"
  normalize_tag :: "obj \<Rightarrow> obj \<Rightarrow> obj option result"
  validate_tag :: "obj \<Rightarrow> obj \<Rightarrow> obj option result"
  parse_inline :: "string \<Rightarrow> obj \<Rightarrow> obj result"
  format :: "comments \<Rightarrow> obj \<Rightarrow> obj \<Rightarrow> obj result"
  define_prop :: "obj \<Rightarrow> string \<Rightarrow> jsval \<Rightarrow> obj"
  isObject :: "jsval \<Rightarrow> bool"
  isValidBlockComment :: "jsval \<Rightarrow> obj \<Rightarrow> bool"
  isProtectedComment :: "jsval \<Rightarrow> bool"
  isConfigComment :: "jsval \<Rightarrow> bool"
  copyNode :: "jsval \<Rightarrow> obj result"

section \<open>Conversion to string\<close>

text \<open>
  \<^verbatim>\<open>String(v)\<close>, which a computed property read \<^verbatim>\<open>table[v]\<close> and \<^verbatim>\<open>RegExp.test(v)\<close> apply
  to their argument.
\<close>

fun show_nat :: "nat \<Rightarrow> string" where
  "show_nat n =
     (if n < 10 then [''0123456789'' ! n]
      else show_nat (n div 10) @ [''0123456789'' ! (n mod 10)])"

definition show_int :: "int \<Rightarrow> string" where
  "show_int i = (if i < 0 then CHR ''-'' # show_nat (nat (- i)) else show_nat (nat i))"

fun join :: "string list \<Rightarrow> string" where
  "join [] = []"
| "join [x] = x"
| "join (x # y # ys) = x @ '','' @ join (y # ys)"

fun to_string :: "jsval \<Rightarrow> string" where
  "to_string JUndefined = ''undefined''"
| "to_string JNull = ''null''"
| "to_string (JBool b) = (if b then ''true'' else ''false'')"
| "to_string (JNum n) = show_int (sint n)"
| "to_string (JStr s) = s"
| "to_string (JObj fs) = ''[object Object]''"
| "to_string (JArr xs) =
     join (map (\<lambda>x. if x = JUndefined \<or> x = JNull then [] else to_string x) xs)"

section \<open>The dispatcher: before, after, run\<close>

text \<open>
  The first argument of \<^verbatim>\<open>before\<close> and \<^verbatim>\<open>after\<close>: a handler name, an array of such
  arguments, or an object of handlers by name. \<^verbatim>\<open>utils.isObject\<close> (line 142) is taken to
  tell the object from the array and the name, as the three branches presuppose.
\<close>

datatype regkey = Key string | Keys "regkey list" | Handlers "(string \<times> hook) list"

text \<open>
  Lines 149-150: \<^verbatim>\<open>before[type] = before[type] || []; before[type].push(fn)\<close>. Under an
  inherited name \<^verbatim>\<open>before[type]\<close> is not an array and has no \<^verbatim>\<open>push\<close>.
\<close>

definition push_hook :: "hooks \<Rightarrow> string \<Rightarrow> hook \<Rightarrow> hooks result" where
  "push_hook tbl k fn =
     (case lookup_plain tbl k of
        Own fns \<Rightarrow> Inr (AList.update k (fns @ [fn]) tbl)
      | Missing \<Rightarrow> Inr (AList.update k [fn] tbl)
      | Inherited \<Rightarrow> Inl (NativeTypeError ''push is not a function''))"

fun push_handlers :: "(string \<times> hook) list \<Rightarrow> hooks \<Rightarrow> hooks result" where
  "push_handlers [] tbl = Inr tbl"
| "push_handlers ((k, fn) # hs) tbl =
     (case push_hook tbl k fn of Inl e \<Rightarrow> Inl e | Inr tbl' \<Rightarrow> push_handlers hs tbl')"

fun register :: "regkey \<Rightarrow> hook \<Rightarrow> hooks \<Rightarrow> hooks result"
  and register_all :: "regkey list \<Rightarrow> hook \<Rightarrow> hooks \<Rightarrow> hooks result" where
  "register (Handlers hs) fn tbl = push_handlers hs tbl"
| "register (Keys ks) fn tbl = register_all ks fn tbl"
| "register (Key k) fn tbl = push_hook tbl k fn"
| "register_all [] fn tbl = Inr tbl"
| "register_all (k # ks) fn tbl =
     (case register k fn tbl of Inl e \<Rightarrow> Inl e | Inr tbl' \<Rightarrow> register_all ks fn tbl')"

text \<open>\<^verbatim>\<open>before(type, fn)\<close> (lines 140-153) and \<^verbatim>\<open>after(type, fn)\<close> (lines 185-198).\<close>

definition before :: "comments \<Rightarrow> regkey \<Rightarrow> hook \<Rightarrow> comments result" where
  "before this type fn =
     andThen (register type fn (before_tbl this)) (\<lambda>tbl. Inr (this\<lparr>before_tbl := tbl\<rparr>))"

definition after :: "comments \<Rightarrow> regkey \<Rightarrow> hook \<Rightarrow> comments result" where
  "after this type fn =
     andThen (register type fn (after_tbl this)) (\<lambda>tbl. Inr (this\<lparr>after_tbl := tbl\<rparr>))"

text \<open>\<^verbatim>\<open>this.plugins[type]\<close> for the two phases (line 209).\<close>

definition plugins :: "comments \<Rightarrow> phase \<Rightarrow> hooks" where
  "plugins this type = (case type of Before \<Rightarrow> before_tbl this | After \<Rightarrow> after_tbl this)"

text \<open>The loop of lines 214-222.\<close>

fun run_loop :: "phase \<Rightarrow> hook list \<Rightarrow> jsval \<Rightarrow> jsval result" where
  "run_loop type [] node = Inr node"
| "run_loop type (fn # fns) node =
     (case fn of
        HookVal v \<Rightarrow> Inl (ExpectedPlugin v node type)
      | HookFn f \<Rightarrow>
          (case f node of
             Inl e \<Rightarrow> Inl e
           | Inr (ret, node') \<Rightarrow> run_loop type fns (if truthy ret then ret else node')))"

text \<open>
  The function of lines 211-224, which \<^verbatim>\<open>run\<close> returns: it holds the table \<^verbatim>\<open>plugins\<close> and
  the phase.
\<close>

definition run_with :: "hooks \<Rightarrow> phase \<Rightarrow> jsval \<Rightarrow> jsval result" where
  "run_with tbl type node =
     andThen (getprop node ''type'') (\<lambda>t.
       case lookup_plain tbl (to_string t) of
         Own fns \<Rightarrow> run_loop type fns node
       | Inherited \<Rightarrow> Inl (NativeTypeError ''fns is not iterable'')
       | Missing \<Rightarrow> run_loop type [] node)"

text \<open>
  \<^verbatim>\<open>run(type, compiler)\<close> (lines 208-225), applied to a node. The compiler is only the
  \<^verbatim>\<open>this\<close> of the handlers.
\<close>

definition run :: "comments \<Rightarrow> phase \<Rightarrow> jsval \<Rightarrow> jsval result" where
  "run this type node = run_with (plugins this type) type node"

section \<open>Tokenizing\<close>

text \<open>
  Line 243: \<^verbatim>\<open>/^(\s*\/\*|\*\s*@| {4,})/gm.test(str)\<close>. With the \<^verbatim>\<open>m\<close> flag \<^verbatim>\<open>^\<close> matches at the
  start of the string and after every line terminator; the literal is evaluated anew
  at each call, so the search starts at index 0. Characters are bytes here, so of the
  white space and line terminators of JavaScript only the ASCII ones are covered.
\<close>

definition is_space :: "char \<Rightarrow> bool" where
  "is_space c = (c \<in> set [CHR '' '', CHR 0x09, CHR 0x0A, CHR 0x0B, CHR 0x0C, CHR 0x0D])"

definition starts_with :: "string \<Rightarrow> string \<Rightarrow> bool" where
  "starts_with p s = (take (length p) s = p)"

definition matches_here :: "string \<Rightarrow> bool" where
  "matches_here s =
     (starts_with ''/*'' (dropWhile is_space s)
      \<or> (case s of [] \<Rightarrow> False | c # r \<Rightarrow> c = CHR ''*'' \<and> starts_with ''@'' (dropWhile is_space r))
      \<or> starts_with ''    '' s)"

fun isComment_from :: "bool \<Rightarrow> string \<Rightarrow> bool" where
  "isComment_from line_start [] = False"
| "isComment_from line_start (c # cs) =
     ((line_start \<and> matches_here (c # cs))
      \<or> isComment_from (c = CHR 0x0A \<or> c = CHR 0x0D) cs)"

definition isComment :: "jsval \<Rightarrow> bool" where
  "isComment str = isComment_from True (to_string str)"

text \<open>\<^verbatim>\<open>tokenize(input, options)\<close> (lines 240-248).\<close>

definition tokenize :: "lib \<Rightarrow> comments \<Rightarrow> jsval \<Rightarrow> options \<Rightarrow> obj result" where
  "tokenize L this input opts0 =
     (let opts = merge_options (options this) opts0;
          s = (if fld (settings opts) ''stripStars'' = JUndefined \<and> truthy input
                  \<and> \<not> isComment input
               then setfld (settings opts) ''stripStars'' (JBool False)
               else settings opts)
      in tokenize_comment L input s)"

section \<open>Inline tags, types, parameter types\<close>

text \<open>\<^verbatim>\<open>parseInlineTags(str, options)\<close> (lines 449-462).\<close>

definition parseInlineTags :: "lib \<Rightarrow> comments \<Rightarrow> jsval \<Rightarrow> options \<Rightarrow> obj result" where
  "parseInlineTags L this str opts0 =
     (if typeof str \<noteq> ''string'' then Inl ExpectedString
      else
        let opts = merge_options (options this) opts0;
            parsers = merge_parsers (middleware this) (parse_opt opts)
        in case inlineTag_fn parsers of
             Fn f \<Rightarrow> f (self_of this) (to_string str) (settings opts)
           | _ \<Rightarrow> parse_inline L (to_string str) (settings opts))"

text \<open>\<^verbatim>\<open>parseType(str, tag, options)\<close> (lines 478-492).\<close>

definition parseType :: "lib \<Rightarrow> comments \<Rightarrow> jsval \<Rightarrow> obj \<Rightarrow> options \<Rightarrow> jsval result" where
  "parseType L this str tag opts0 =
     (if typeof str \<noteq> ''string'' then Inl ExpectedString
      else
        let opts = merge_options (options this) opts0;
            parsers = merge_parsers (middleware this) (parse_opt opts)
        in case type_fn parsers of
             Fn f \<Rightarrow> f (self_of this) (to_string str) tag (settings opts)
           | _ \<Rightarrow>
               andThen (parse_type L (to_string str) tag (settings opts))
                 (\<lambda>ast. getprop ast ''value''))"

text \<open>\<^verbatim>\<open>parseParamType(str, options)\<close> (lines 494-507).\<close>

definition parseParamType :: "lib \<Rightarrow> comments \<Rightarrow> jsval \<Rightarrow> options \<Rightarrow> jsval result" where
  "parseParamType L this str opts0 =
     (if typeof str \<noteq> ''string'' then Inl ExpectedString
      else
        let opts = merge_options (options this) opts0;
            parsers = merge_parsers (middleware this) (parse_opt opts)
        in case paramType_fn parsers of
             Fn f \<Rightarrow> f (self_of this) (to_string str) (settings opts)
           | _ \<Rightarrow> Inr str)"

section \<open>Tags\<close>

text \<open>
  \<^verbatim>\<open>tag.rawType.slice(1, -1)\<close> (line 400) on a truthy \<^verbatim>\<open>rawType\<close>: strings and arrays have
  \<^verbatim>\<open>slice\<close>, other values do not.
\<close>

fun slice_1_m1 :: "jsval \<Rightarrow> jsval result" where
  "slice_1_m1 (JStr s) = Inr (JStr (butlast (tl s)))"
| "slice_1_m1 (JArr xs) = Inr (JArr (butlast (tl xs)))"
| "slice_1_m1 v = Inl (NativeTypeError ''tag.rawType.slice is not a function'')"

text \<open>Lines 420-426 of \<^verbatim>\<open>parseTag\<close>, and lines 308-312 of \<^verbatim>\<open>parseComment\<close>.\<close>

definition inline_description :: "lib \<Rightarrow> comments \<Rightarrow> obj \<Rightarrow> options \<Rightarrow> obj result" where
  "inline_description L this node opts =
     (if truthy (fld node ''description'') then
        andThen (parseInlineTags L this (fld node ''description'') opts) (\<lambda>inline.
          Inr (setfld (setfld node ''description'' (fld inline ''value''))
                 ''inlineTags'' (fld inline ''tags'')))
      else Inr node)"

text \<open>Lines 410-426 of \<^verbatim>\<open>parseTag\<close>: normalize, validate, inline tags of the description.\<close>

definition finish_tag :: "lib \<Rightarrow> comments \<Rightarrow> obj \<Rightarrow> options \<Rightarrow> obj option result" where
  "finish_tag L this tag opts =
     andThen (normalize_tag L tag (settings opts)) (\<lambda>n.
       case n of
         None \<Rightarrow> Inr None
       | Some tag1 \<Rightarrow>
           andThen (validate_tag L tag1 (settings opts)) (\<lambda>v.
             case v of
               None \<Rightarrow> Inr None
             | Some tag2 \<Rightarrow>
                 andThen (inline_description L this tag2 opts) (\<lambda>tag3. Inr (Some tag3))))"

text \<open>
  \<^verbatim>\<open>parseTag(tok, options)\<close> (lines 375-427). The result \<open>None\<close> is a falsy return value
  (\<^verbatim>\<open>null\<close>).
\<close>

definition parseTag :: "lib \<Rightarrow> comments \<Rightarrow> jsval \<Rightarrow> options \<Rightarrow> obj option result" where
  "parseTag L this tok0 opts0 =
     (let opts = merge_options (options this) opts0;
          parsers = merge_parsers (middleware this) (parse_opt opts);
          tok = (if typeof tok0 = ''string'' then JObj [(''raw'', tok0), (''value'', tok0)]
                 else tok0)
      in case tag_fn parsers of
           Fn f \<Rightarrow> andThen (getprop tok ''raw'') (\<lambda>raw. f (self_of this) raw (settings opts))
         | _ \<Rightarrow>
             (case parse_tag L tok of
                Inl err \<Rightarrow> if truthy (fld (settings opts) ''strict'') then Inl err else Inr None
              | Inr None \<Rightarrow> Inr None
              | Inr (Some tag) \<Rightarrow>
                  if truthy (fld tag ''rawType'') \<and> \<not> allows_type L tok then Inr None
                  else
                    andThen
                      (if truthy (fld tag ''rawType'') then
                         andThen (slice_1_m1 (fld tag ''rawType'')) (\<lambda>str.
                           andThen (parseType L this str tag opts0) (\<lambda>t.
                             Inr (setfld tag ''type'' t)))
                       else Inr tag)
                      (\<lambda>tag'.
                         if expects_type L tag' \<and> \<not> truthy (fld tag' ''type'') then
                           (if fld (settings opts) ''strict'' = JBool True then Inr None
                            else finish_tag L this (setfld tag' ''type'' JNull) opts)
                         else finish_tag L this tag' opts)))"

text \<open>
  The elements a \<^verbatim>\<open>for ... of\<close> loop visits (line 348): those of an array, the characters
  of a string; other values are not iterable.
\<close>

fun iterate :: "jsval \<Rightarrow> jsval list result" where
  "iterate (JArr xs) = Inr xs"
| "iterate (JStr s) = Inr (map (\<lambda>c. JStr [c]) s)"
| "iterate v = Inl (NativeTypeError ''comment.tags is not iterable'')"

text \<open>The loop of lines 348-355; \<open>tags\<close> is the array built so far.\<close>

fun parseTags_loop ::
  "lib \<Rightarrow> comments \<Rightarrow> options \<Rightarrow> jsval list \<Rightarrow> jsval list \<Rightarrow> jsval list result" where
  "parseTags_loop L this opts [] tags = Inr tags"
| "parseTags_loop L this opts (raw # raws) tags =
     (case parseTag L this raw opts of
        Inl e \<Rightarrow> Inl e
      | Inr None \<Rightarrow> parseTags_loop L this opts raws tags
      | Inr (Some tag) \<Rightarrow>
          parseTags_loop L this opts raws
            (tags @ [JObj (define_prop L
                             (define_prop L tag ''rawType'' (fld tag ''rawType''))
                             ''raw'' raw)]))"

text \<open>\<^verbatim>\<open>parseTags(comment, options)\<close> (lines 339-358).\<close>

definition parseTags :: "lib \<Rightarrow> comments \<Rightarrow> obj \<Rightarrow> options \<Rightarrow> jsval result" where
  "parseTags L this comment opts0 =
     (let opts = merge_options (options this) opts0;
          parsers = merge_parsers (middleware this) (parse_opt opts)
      in case parseTags_fn parsers of
           Fn f \<Rightarrow> f (self_of this) comment (settings opts)
         | _ \<Rightarrow>
             andThen (iterate (fld comment ''tags'')) (\<lambda>raws.
               andThen (parseTags_loop L this opts raws []) (\<lambda>tags. Inr (JArr tags))))"

section \<open>Comments\<close>

text \<open>
  Lines 307-320 of \<^verbatim>\<open>parseComment\<close>: the inline tags of the description, the optional
  formatting, the \<^verbatim>\<open>comment\<close> event, the return.
\<close>

definition finishComment ::
  "lib \<Rightarrow> comments \<Rightarrow> obj \<Rightarrow> options \<Rightarrow> (obj \<times> comments) result" where
  "finishComment L this comment opts =
     andThen (inline_description L this comment opts) (\<lambda>c1.
       andThen (if fld (settings opts) ''format'' = JBool True
                then format L this c1 (settings opts) else Inr c1) (\<lambda>c2.
         Inr (c2, emit this ''comment'' (JObj c2))))"

text \<open>The own enumerable properties \<^verbatim>\<open>Object.assign\<close> copies from a source value.\<close>

fun own_props :: "jsval \<Rightarrow> obj" where
  "own_props (JObj fs) = fs"
| "own_props (JArr xs) = zip (map show_nat [0..<length xs]) xs"
| "own_props (JStr s) = zip (map show_nat [0..<length s]) (map (\<lambda>c. JStr [c]) s)"
| "own_props v = []"

text \<open>
  \<^verbatim>\<open>parseComment(comment, options)\<close> (lines 283-321) where line 291 is not reached: a
  \<^verbatim>\<open>comment\<close> handler is registered (line 288), or the comment is not a string (lines
  294-299).
\<close>

definition parseComment_node ::
  "lib \<Rightarrow> comments \<Rightarrow> jsval \<Rightarrow> options \<Rightarrow> (obj \<times> comments) result" where
  "parseComment_node L this comment opts0 =
     (let opts = merge_options (options this) opts0;
          parsers = merge_parsers (middleware this) (parse_opt opts)
      in case comment_fn parsers of
           Fn f \<Rightarrow>
             andThen (f (self_of this) comment (settings opts))
               (\<lambda>c. finishComment L this c opts)
         | _ \<Rightarrow>
             andThen (getprop comment ''value'') (\<lambda>v.
               andThen (tokenize L this v opts) (\<lambda>tok.
                 let this1 = this\<lparr>tokens := tokens this @ [tok]\<rparr> in
                 andThen (normalize_examples L (assign (own_props comment) tok) (settings opts))
                   (\<lambda>c1.
                     andThen (parseTags L this1 c1 opts0) (\<lambda>tags.
                       finishComment L this1 (setfld c1 ''tags'' tags) opts)))))"

text \<open>\<^verbatim>\<open>isValid(comment, options)\<close> (lines 572-591).\<close>

definition isValid :: "lib \<Rightarrow> comments \<Rightarrow> jsval \<Rightarrow> options \<Rightarrow> jsval result" where
  "isValid L this comment opts0 =
     (if \<not> isObject L comment then Inl ExpectedObject
      else
        let opts = merge_options (options this) opts0
        in case isValid_opt opts of
             Fn f \<Rightarrow> f comment
           | _ \<Rightarrow>
               if \<not> isValidBlockComment L comment (settings opts0) then Inr (JBool False)
               else
                 andThen (getprop comment ''raw'') (\<lambda>raw.
                   if fld (settings opts) ''protected'' = JBool False \<and> isProtectedComment L raw
                   then Inr (JBool False)
                   else
                     andThen (getprop comment ''value'') (\<lambda>v.
                       Inr (JBool (\<not> isConfigComment L v)))))"

text \<open>
  \<^verbatim>\<open>preprocess(comment, options)\<close> (lines 547-558). The copy \<^verbatim>\<open>obj.code\<close> is the object the
  second assignment writes \<^verbatim>\<open>context\<close> to.
\<close>

definition preprocess :: "lib \<Rightarrow> comments \<Rightarrow> jsval \<Rightarrow> options \<Rightarrow> obj result" where
  "preprocess L this comment opts0 =
     (let opts = merge_options (options this) opts0
      in case preprocess_opt opts of
           Fn f \<Rightarrow> f (self_of this) comment (settings opts)
         | _ \<Rightarrow>
             andThen (copyNode L comment) (\<lambda>obj.
               andThen (getprop comment ''code'') (\<lambda>code.
                 andThen (copyNode L code) (\<lambda>code1.
                   andThen (getprop code ''context'') (\<lambda>ctx.
                     andThen (copyNode L ctx) (\<lambda>ctx1.
                       Inr (setfld obj ''code''
                              (JObj (setfld code1 ''context'' (JObj ctx1))))))))))"

text \<open>
  \<^verbatim>\<open>[].concat(x || [])\<close> (line 527): the elements of an array, no element for a falsy
  value, the value itself otherwise.
\<close>

definition concat_or_empty :: "jsval \<Rightarrow> jsval list" where
  "concat_or_empty x = (if \<not> truthy x then [] else case x of JArr xs \<Rightarrow> xs | _ \<Rightarrow> [x])"

text \<open>
  The loop of lines 532-542. The callback \<^verbatim>\<open>fn\<close> returns a node, which is truthy, so
  \<^verbatim>\<open>fn.call(this, comment) || comment\<close> is what it returns.
\<close>

fun extract_loop ::
  "lib \<Rightarrow> options \<Rightarrow> (obj \<Rightarrow> comments \<Rightarrow> (obj \<times> comments) result) option \<Rightarrow>
   jsval list \<Rightarrow> obj list \<Rightarrow> comments \<Rightarrow> (obj list \<times> comments) result" where
  "extract_loop L opts0 fn [] res this = Inr (res, this)"
| "extract_loop L opts0 fn (c # cs) res this =
     (case isValid L this c opts0 of
        Inl e \<Rightarrow> Inl e
      | Inr ok \<Rightarrow>
          if ok = JBool False then extract_loop L opts0 fn cs res this
          else
            (case preprocess L this c opts0 of
               Inl e \<Rightarrow> Inl e
             | Inr comment \<Rightarrow>
                 (case fn of
                    None \<Rightarrow> extract_loop L opts0 fn cs (res @ [comment]) this
                  | Some f \<Rightarrow>
                      (case f comment this of
                         Inl e \<Rightarrow> Inl e
                       | Inr (comment', this') \<Rightarrow>
                           extract_loop L opts0 fn cs (res @ [comment']) this'))))"

text \<open>
  \<^verbatim>\<open>extract(str, options, fn)\<close> (lines 516-545), \<^verbatim>\<open>options\<close> not being a function. The
  name \<open>extract\<close> is taken by Isabelle.
\<close>

definition extract_comments ::
  "lib \<Rightarrow> comments \<Rightarrow> string \<Rightarrow> options \<Rightarrow>
   (obj \<Rightarrow> comments \<Rightarrow> (obj \<times> comments) result) option \<Rightarrow> (obj list \<times> comments) result" where
  "extract_comments L this str opts0 fn =
     (let opts = merge_options (options this) opts0
      in andThen
           (case extract_opt opts of
              Fn f \<Rightarrow>
                andThen (f (self_of this) str (settings opts)) (\<lambda>x. Inr (concat_or_empty x))
            | _ \<Rightarrow> extract_block L str (settings opts))
           (\<lambda>cs. extract_loop L opts0 fn cs [] this))"

text \<open>
  \<^verbatim>\<open>parse(str, options)\<close> (lines 263-268). The callback of line 265 gets a preprocessed
  node, never a string.
\<close>

definition parse ::
  "lib \<Rightarrow> comments \<Rightarrow> string \<Rightarrow> options \<Rightarrow> (obj list \<times> comments) result" where
  "parse L this str opts0 =
     andThen
       (extract_comments L this str opts0
          (Some (\<lambda>comment this'. parseComment_node L this' (JObj comment) opts0)))
       (\<lambda>(res, this'). Inr (res, this'\<lparr>ast := res\<rparr>))"

text \<open>
  \<^verbatim>\<open>parseComment(comment, options)\<close> (lines 283-321): line 291 for a string when no
  \<^verbatim>\<open>comment\<close> handler is registered, where \<^verbatim>\<open>[0]\<close> of an empty array is \<^verbatim>\<open>undefined\<close> and
  line 308 throws; the other two branches otherwise.
\<close>

definition parseComment ::
  "lib \<Rightarrow> comments \<Rightarrow> jsval \<Rightarrow> options \<Rightarrow> (obj \<times> comments) result" where
  "parseComment L this comment opts0 =
     (let opts = merge_options (options this) opts0;
          parsers = merge_parsers (middleware this) (parse_opt opts)
      in if (case comment_fn parsers of Fn f \<Rightarrow> False | _ \<Rightarrow> True)
            \<and> typeof comment = ''string''
         then
           andThen (parse L this (to_string comment) opts0) (\<lambda>(res, this').
             case res of
               [] \<Rightarrow> Inl (NativeTypeError ''Cannot read properties of undefined'')
             | c # cs \<Rightarrow> finishComment L this' c opts)
         else parseComment_node L this comment opts0)"

section \<open>The collaborators as the specification describes them\<close>

text \<open>
  Concrete collaborators, for running the model on concrete comments. They follow the
  specification where it says what a collaborator does and are as plain as possible
  elsewhere.
\<close>

definition trim_left :: "string \<Rightarrow> string" where
  "trim_left s = dropWhile (\<lambda>c. c = CHR '' '') s"

definition first_word :: "string \<Rightarrow> string" where
  "first_word s = takeWhile (\<lambda>c. c \<noteq> CHR '' '') s"

definition after_word :: "string \<Rightarrow> string" where
  "after_word s = trim_left (dropWhile (\<lambda>c. c \<noteq> CHR '' '') s)"

text \<open>
  The span up to the brace that closes the first one, and what follows it; \<open>None\<close>
  when the braces are not balanced.
\<close>

fun braced :: "nat \<Rightarrow> string \<Rightarrow> (string \<times> string) option" where
  "braced d [] = None"
| "braced d (c # cs) =
     (if c = CHR 0x7D \<and> d \<le> 1 then Some ([c], cs)
      else map_option (\<lambda>(a, b). (c # a, b))
             (braced (if c = CHR 0x7B then Suc d else if c = CHR 0x7D then d - 1 else d) cs))"

text \<open>
  Modelled from the spec: the policy tables of \<^verbatim>\<open>./lib\<close> (Normalization and Validation),
  which are not under src/. Section 3 names \<^verbatim>\<open>param\<close>, \<^verbatim>\<open>returns\<close> and \<^verbatim>\<open>type\<close> as
  requiring a type and \<^verbatim>\<open>constructor\<close> and \<^verbatim>\<open>private\<close> as forbidding one; section 4.4
  gives the aliases \<^verbatim>\<open>arg\<close>, \<^verbatim>\<open>argument\<close> and \<^verbatim>\<open>return\<close>.
\<close>

definition type_required :: "string list" where
  "type_required = [''param'', ''returns'', ''type'']"

definition type_forbidden :: "string list" where
  "type_forbidden = [''constructor'', ''private'']"

definition canonical_title :: "string \<Rightarrow> string" where
  "canonical_title t =
     (if t = ''arg'' \<or> t = ''argument'' then ''param''
      else if t = ''return'' then ''returns'' else t)"

definition line_title :: "string \<Rightarrow> string" where
  "line_title line = first_word (case line of [] \<Rightarrow> [] | c # cs \<Rightarrow> if c = CHR ''@'' then cs else line)"

text \<open>
  Modelled from the spec: \<^verbatim>\<open>lib.parse.tag\<close>, which is not under src/. Section 4.2: the
  line is split into title, a type literal in balanced braces right after the title,
  a name for the titles that take one, and the remaining text; braces that are not
  balanced make the parse fail.
\<close>

definition tag_fields :: "string \<Rightarrow> string option \<Rightarrow> string \<Rightarrow> obj" where
  "tag_fields title ty rest =
     [(''title'', JStr title)]
     @ (case ty of None \<Rightarrow> [] | Some t \<Rightarrow> [(''rawType'', JStr t)])
     @ (if canonical_title title = ''param'' \<and> rest \<noteq> []
        then [(''name'', JStr (first_word rest)), (''description'', JStr (after_word rest))]
        else [(''description'', JStr rest)])"

definition split_tag :: "string \<Rightarrow> obj option result" where
  "split_tag line =
     (let title = line_title line;
          rest = after_word line
      in if title = [] then Inr None
         else if starts_with ''{'' rest then
           (case braced 0 rest of
              None \<Rightarrow> Inl (Thrown (JStr ''TagSyntaxError''))
            | Some (ty, rest') \<Rightarrow> Inr (Some (tag_fields title (Some ty) (trim_left rest'))))
         else Inr (Some (tag_fields title None rest)))"

definition spec_parse_tag :: "jsval \<Rightarrow> obj option result" where
  "spec_parse_tag tok =
     andThen (getprop tok ''raw'') (\<lambda>raw.
       case raw of JStr line \<Rightarrow> split_tag line | _ \<Rightarrow> Inr None)"

text \<open>
  Modelled from the spec: \<^verbatim>\<open>lib.allows.type\<close> and \<^verbatim>\<open>lib.expects.type\<close>, which are not
  under src/, as the two classes of the policy table.
\<close>

definition spec_allows_type :: "jsval \<Rightarrow> bool" where
  "spec_allows_type tok =
     (case getprop tok ''raw'' of
        Inr (JStr line) \<Rightarrow> canonical_title (line_title line) \<notin> set type_forbidden
      | _ \<Rightarrow> True)"

definition spec_expects_type :: "obj \<Rightarrow> bool" where
  "spec_expects_type tag =
     (case fld tag ''title'' of
        JStr t \<Rightarrow> canonical_title t \<in> set type_required
      | _ \<Rightarrow> False)"

text \<open>
  Modelled from the spec: \<^verbatim>\<open>lib.parse.type\<close>, which is not under src/. Section 4.1: the
  parse fails when brackets are not balanced, and an identifier is a \<^verbatim>\<open>NameType\<close>. The
  grammar of composite literals is not modelled: they are kept as their text.
\<close>

fun balanced :: "string \<Rightarrow> string \<Rightarrow> bool" where
  "balanced stack [] = (stack = [])"
| "balanced stack (c # cs) =
     (if c \<in> set ''({[<'' then balanced (c # stack) cs
      else if c \<in> set '')}]>'' then
        (case stack of
           [] \<Rightarrow> False
         | o' # stack' \<Rightarrow> (o', c) \<in> set (zip ''({[<'' '')}]>'') \<and> balanced stack' cs)
      else balanced stack cs)"

definition spec_parse_type :: "string \<Rightarrow> obj \<Rightarrow> obj \<Rightarrow> jsval result" where
  "spec_parse_type str tag opts =
     (if \<not> balanced [] str then Inl (Thrown (JStr ''TypeSyntaxError''))
      else if set str \<inter> set ''({[<)}]>|=?!:, '' = {}
      then Inr (JObj [(''value'', JObj [(''type'', JStr ''NameType''), (''name'', JStr str)])])
      else Inr (JObj [(''value'', JObj [(''type'', JStr ''TypeLiteral''), (''text'', JStr str)])]))"

text \<open>
  Modelled from the spec: \<^verbatim>\<open>lib.normalize.tag\<close> and \<^verbatim>\<open>lib.validate.tag\<close>, which are not
  under src/. Section 4.4: the title is replaced by its canonical spelling; a tag with
  an unknown title is passed through.
\<close>

definition spec_normalize_tag :: "obj \<Rightarrow> obj \<Rightarrow> obj option result" where
  "spec_normalize_tag tag opts =
     (case fld tag ''title'' of
        JStr t \<Rightarrow> Inr (Some (setfld tag ''title'' (JStr (canonical_title t))))
      | _ \<Rightarrow> Inr None)"

definition spec_validate_tag :: "obj \<Rightarrow> obj \<Rightarrow> obj option result" where
  "spec_validate_tag tag opts = Inr (Some tag)"

text \<open>
  Modelled from the spec: \<^verbatim>\<open>lib.parse.inline\<close>, which is not under src/. Section 4.3: one
  scan from the left for \<^verbatim>\<open>{@tag value}\<close> spans with balanced braces; the text is
  returned as it is; a marker that is not closed gives no reference. The counter is
  the number of characters of the current span still to be passed over.
\<close>

definition inline_ref :: "string \<Rightarrow> jsval" where
  "inline_ref raw =
     (let inner = butlast (drop 2 raw)
      in JObj [(''raw'', JStr raw), (''tag'', JStr (first_word inner)),
               (''value'', JStr (after_word inner))])"

fun inline_refs :: "nat \<Rightarrow> string \<Rightarrow> jsval list" where
  "inline_refs n [] = []"
| "inline_refs (Suc n) (c # cs) = inline_refs n cs"
| "inline_refs 0 (c # cs) =
     (if starts_with ''{@'' (c # cs) then
        (case braced 0 (c # cs) of
           None \<Rightarrow> inline_refs 0 cs
         | Some (raw, rest) \<Rightarrow> inline_ref raw # inline_refs (length raw - 1) cs)
      else inline_refs 0 cs)"

definition spec_parse_inline :: "string \<Rightarrow> obj \<Rightarrow> obj result" where
  "spec_parse_inline str opts =
     Inr [(''value'', JStr str), (''tags'', JArr (inline_refs 0 str))]"

text \<open>
  Modelled from the spec: the package \<^verbatim>\<open>tokenize-comment\<close>, which is not under src/.
  Section 6: from the body of one comment it returns the description text, the tag
  lines in order, and the examples. Here a line is stripped of its leading spaces and
  star, the description is the lines before the first tag line, and there are no
  examples.
\<close>

fun split_lines :: "string \<Rightarrow> string list" where
  "split_lines [] = [[]]"
| "split_lines (c # cs) =
     (if c = CHR 0x0A then [] # split_lines cs
      else (case split_lines cs of [] \<Rightarrow> [[c]] | l # ls \<Rightarrow> (c # l) # ls))"

definition strip_star :: "string \<Rightarrow> string" where
  "strip_star line =
     (case trim_left line of
        [] \<Rightarrow> []
      | c # r \<Rightarrow> if c = CHR ''*'' then trim_left r else c # r)"

definition spec_tokenize :: "jsval \<Rightarrow> obj \<Rightarrow> obj result" where
  "spec_tokenize input opts =
     (case input of
        JStr body \<Rightarrow>
          (let ls = filter (\<lambda>l. l \<noteq> []) (map strip_star (split_lines body))
           in Inr [(''description'', JStr (join (takeWhile (\<lambda>l. \<not> starts_with ''@'' l) ls))),
                   (''tags'', JArr (map JStr (filter (starts_with ''@'') ls))),
                   (''examples'', JArr [])])
      | _ \<Rightarrow> Inl (Thrown (JStr ''expected a string'')))"

text \<open>
  Modelled from the spec: the package \<^verbatim>\<open>extract-comments\<close>, which is not under src/.
  Section 6: from source text it returns the comment blocks with their raw text and
  the code that follows. Here the text is one block comment or holds none.
\<close>

definition spec_extract_block :: "string \<Rightarrow> obj \<Rightarrow> jsval list result" where
  "spec_extract_block str opts =
     (if starts_with ''/*'' str \<and> starts_with ''/*'' (rev str) \<and> 4 \<le> length str
      then Inr [JObj [(''type'', JStr ''BlockComment''), (''raw'', JStr str),
                      (''value'', JStr (butlast (butlast (drop 2 str)))),
                      (''code'', JObj [(''context'', JObj [])])]]
      else Inr [])"

text \<open>
  Modelled from the spec: the helpers of \<^verbatim>\<open>lib/utils\<close>, which are not under src/. The
  comment of lines 560-570 says which comments are valid: those that begin with
  \<^verbatim>\<open>/**\<close> and do not contain \<^verbatim>\<open>jslint\<close>, \<^verbatim>\<open>jshint\<close>, \<^verbatim>\<open>eshint\<close> or \<^verbatim>\<open>eslint\<close>.
\<close>

fun contains :: "string \<Rightarrow> string \<Rightarrow> bool" where
  "contains w [] = (w = [])"
| "contains w (c # cs) = (starts_with w (c # cs) \<or> contains w cs)"

definition spec_isObject :: "jsval \<Rightarrow> bool" where
  "spec_isObject v = (case v of JObj fs \<Rightarrow> True | _ \<Rightarrow> False)"

definition spec_isValidBlockComment :: "jsval \<Rightarrow> obj \<Rightarrow> bool" where
  "spec_isValidBlockComment comment opts =
     (case getprop comment ''raw'' of Inr (JStr raw) \<Rightarrow> starts_with ''/**'' raw | _ \<Rightarrow> False)"

definition spec_isProtectedComment :: "jsval \<Rightarrow> bool" where
  "spec_isProtectedComment raw =
     (case raw of JStr s \<Rightarrow> starts_with ''/*!'' s \<or> starts_with ''/**!'' s | _ \<Rightarrow> False)"

definition spec_isConfigComment :: "jsval \<Rightarrow> bool" where
  "spec_isConfigComment v =
     (case v of
        JStr s \<Rightarrow> list_ex (\<lambda>w. contains w s) [''jslint'', ''jshint'', ''eshint'', ''eslint'']
      | _ \<Rightarrow> False)"

definition spec_copyNode :: "jsval \<Rightarrow> obj result" where
  "spec_copyNode v = Inr (own_props v)"

text \<open>
  Modelled from the spec: the collaborators together. Of \<^verbatim>\<open>lib.normalize.examples\<close> and
  \<^verbatim>\<open>lib.format\<close> the specification says only that they normalise the examples and format
  the final comment: here they leave the comment as it is. \<^verbatim>\<open>utils.define\<close> sets the
  property.
\<close>

definition spec_lib :: lib where
  "spec_lib =
     \<lparr>tokenize_comment = spec_tokenize,
      extract_block = spec_extract_block,
      normalize_examples = (\<lambda>comment opts. Inr comment),
      parse_tag = spec_parse_tag,
      allows_type = spec_allows_type,
      expects_type = spec_expects_type,
      parse_type = spec_parse_type,
      normalize_tag = spec_normalize_tag,
      validate_tag = spec_validate_tag,
      parse_inline = spec_parse_inline,
      format = (\<lambda>this comment opts. Inr comment),
      define_prop = setfld,
      isObject = spec_isObject,
      isValidBlockComment = spec_isValidBlockComment,
      isProtectedComment = spec_isProtectedComment,
      isConfigComment = spec_isConfigComment,
      copyNode = spec_copyNode\<rparr>"

section \<open>Notions the properties are stated with\<close>

text \<open>\<^verbatim>\<open>typeof x === 'function'\<close> on a slot.\<close>

fun is_function :: "'f slot \<Rightarrow> bool" where
  "is_function (Fn f) = True"
| "is_function s = False"

text \<open>The \<^verbatim>\<open>parsers\<close> object a method builds from the instance and its \<^verbatim>\<open>options\<close> argument.\<close>

abbreviation parsers_of :: "comments \<Rightarrow> options \<Rightarrow> parsers" where
  "parsers_of this opts0 \<equiv>
     merge_parsers (middleware this) (parse_opt (merge_options (options this) opts0))"

text \<open>
  Two states of an instance with the same registrations: the same options, middleware
  and \<^verbatim>\<open>before\<close> and \<^verbatim>\<open>after\<close> handlers. They may differ in the tokens, the \<^verbatim>\<open>ast\<close> and the
  events emitted so far.
\<close>

definition same_pipeline :: "comments \<Rightarrow> comments \<Rightarrow> bool" where
  "same_pipeline a b =
     (options a = options b \<and> middleware a = middleware b
      \<and> before_tbl a = before_tbl b \<and> after_tbl a = after_tbl b)"

text \<open>
  No handler function is reached from \<^verbatim>\<open>parseComment\<close> with these options: the positions of
  lines 287, 344, 384, 457 and 486 and \<^verbatim>\<open>opts.extract\<close> and \<^verbatim>\<open>opts.preprocess\<close> hold no function.
\<close>

definition calls_no_handler :: "comments \<Rightarrow> options \<Rightarrow> bool" where
  "calls_no_handler this opts0 =
     (let opts = merge_options (options this) opts0;
          parsers = merge_parsers (middleware this) (parse_opt opts)
      in \<not> is_function (comment_fn parsers) \<and> \<not> is_function (parseTags_fn parsers)
         \<and> \<not> is_function (tag_fn parsers) \<and> \<not> is_function (inlineTag_fn parsers)
         \<and> \<not> is_function (type_fn parsers) \<and> \<not> is_function (extract_opt opts)
         \<and> \<not> is_function (preprocess_opt opts))"

text \<open>
  The handlers reached with the options \<open>opts0\<close> cannot tell \<open>a\<close> from \<open>b\<close>: they are given
  the same of both, or there is none.
\<close>

definition handlers_see_same :: "comments \<Rightarrow> comments \<Rightarrow> options \<Rightarrow> bool" where
  "handlers_see_same a b opts0 = (self_of a = self_of b \<or> calls_no_handler b opts0)"

text \<open>A function of the instance that reads nothing of it but the registrations.\<close>

definition reads_pipeline_only :: "(comments \<Rightarrow> 'a) \<Rightarrow> bool" where
  "reads_pipeline_only f = (\<forall>a b. same_pipeline a b \<longrightarrow> f a = f b)"

text \<open>
  With the options \<open>opts\<close>, formatting does not tell the states of \<open>a\<close> from those of
  \<open>b\<close>: \<^verbatim>\<open>opts.format\<close> is not \<^verbatim>\<open>true\<close>, so that line 316 is not reached, or \<^verbatim>\<open>lib.format\<close>
  gives the same function on both.
\<close>

definition format_insensitive :: "lib \<Rightarrow> options \<Rightarrow> comments \<Rightarrow> comments \<Rightarrow> bool" where
  "format_insensitive L opts a b =
     (fld (settings opts) ''format'' = JBool True \<longrightarrow>
        (\<forall>x y. same_pipeline x a \<longrightarrow> same_pipeline y b \<longrightarrow> format L x = format L y))"

text \<open>
  Line 291 is reached: no \<^verbatim>\<open>comment\<close> handler is registered and the comment is a string.
  Then \<^verbatim>\<open>parse\<close> calls \<^verbatim>\<open>parseComment\<close> on every valid comment it extracts;
  \<open>nested_comments\<close> are the nodes these calls return.
\<close>

definition reaches_parse :: "comments \<Rightarrow> jsval \<Rightarrow> options \<Rightarrow> bool" where
  "reaches_parse this comment opts0 =
     (\<not> is_function (comment_fn (parsers_of this opts0)) \<and> typeof comment = ''string'')"

definition nested_comments :: "lib \<Rightarrow> comments \<Rightarrow> jsval \<Rightarrow> options \<Rightarrow> obj list" where
  "nested_comments L this comment opts0 =
     (if reaches_parse this comment opts0 then
        (case parse L this (to_string comment) opts0 of
           Inl e \<Rightarrow> []
         | Inr (res, this') \<Rightarrow> res)
      else [])"

text \<open>
  A handler as in the comment of lines 115-117: it changes the node in place
  (\<^verbatim>\<open>node.name = node.name.toUpperCase()\<close>) and returns nothing. \<open>hooked\<close> is a new instance
  after \<^verbatim>\<open>before('param', handler)\<close>; \<open>misconfigured\<close> has the number 3 registered after
  it, and \<^verbatim>\<open>null\<close> registered with \<^verbatim>\<open>after('param', null)\<close>: neither is a function.
\<close>

definition to_upper :: "char \<Rightarrow> char" where
  "to_upper c =
     (case map_of (zip ''abcdefghijklmnopqrstuvwxyz'' ''ABCDEFGHIJKLMNOPQRSTUVWXYZ'') c of
        Some u \<Rightarrow> u
      | None \<Rightarrow> c)"

definition upper_name :: "jsval \<Rightarrow> (jsval \<times> jsval) result" where
  "upper_name node =
     (case node of
        JObj fs \<Rightarrow>
          (case fld fs ''name'' of
             JStr n \<Rightarrow> Inr (JUndefined, JObj (setfld fs ''name'' (JStr (map to_upper n))))
           | _ \<Rightarrow> Inl (NativeTypeError ''node.name.toUpperCase is not a function''))
      | _ \<Rightarrow> Inl (NativeTypeError ''node.name.toUpperCase is not a function''))"

definition hooked :: comments where
  "hooked = (new_Comments no_options)\<lparr>before_tbl := [(''param'', [HookFn upper_name])]\<rparr>"

definition misconfigured :: comments where
  "misconfigured =
     (new_Comments no_options)
       \<lparr>before_tbl := [(''param'', [HookFn upper_name, HookVal (JNum 3)])],
        after_tbl := [(''param'', [HookVal JNull])]\<rparr>"

text \<open>
  A \<^verbatim>\<open>tag\<close> handler that builds a node of type \<^verbatim>\<open>param\<close> named by the text after \<^verbatim>\<open>@param\<close> and
  returns \<^verbatim>\<open>this.run('before')(node)\<close>; \<open>with_running_tag\<close> registers it as middleware
  (\<^verbatim>\<open>set('tag', handler)\<close>).
\<close>

definition running_tag :: "self \<Rightarrow> jsval \<Rightarrow> obj \<Rightarrow> obj option result" where
  "running_tag s raw opts =
     andThen
       (run_with (self_before s) Before
          (JObj [(''type'', JStr ''param''), (''name'', JStr (drop 7 (to_string raw)))]))
       (\<lambda>node. case node of JObj fs \<Rightarrow> Inr (Some fs) | _ \<Rightarrow> Inr None)"

definition with_running_tag :: "comments \<Rightarrow> comments" where
  "with_running_tag this = this\<lparr>middleware := (middleware this)\<lparr>tag_fn := Fn running_tag\<rparr>\<rparr>"

definition strict_options :: options where
  "strict_options = no_options\<lparr>settings := [(''strict'', JBool True)]\<rparr>"

text \<open>Lines 380-382: a token given as a string is wrapped.\<close>

abbreviation wrap_tok :: "jsval \<Rightarrow> jsval" where
  "wrap_tok tok0 \<equiv>
     (if typeof tok0 = ''string'' then JObj [(''raw'', tok0), (''value'', tok0)] else tok0)"

text \<open>
  What one iteration of the loop of lines 348-355 adds to \<^verbatim>\<open>tags\<close>: the parsed tag with
  \<^verbatim>\<open>rawType\<close> and \<^verbatim>\<open>raw\<close> defined on it, or nothing.
\<close>

definition kept_tag :: "lib \<Rightarrow> comments \<Rightarrow> options \<Rightarrow> jsval \<Rightarrow> jsval option" where
  "kept_tag L this opts raw =
     (case parseTag L this raw opts of
        Inr (Some tag) \<Rightarrow>
          Some (JObj (define_prop L (define_prop L tag ''rawType'' (fld tag ''rawType''))
                        ''raw'' raw))
      | _ \<Rightarrow> None)"

section \<open>Properties\<close>

lemma andThen_simps [simp]:
  "andThen (Inl e) f = Inl e"
  "andThen (Inr x) f = f x"
  by (simp_all add: andThen_def)

lemma andThen_eq_Inr: "andThen m f = Inr y \<longleftrightarrow> (\<exists>x. m = Inr x \<and> f x = Inr y)"
  by (cases m) simp_all

lemma map_sum_andThen:
  "map_sum id g (andThen m f) = andThen m (\<lambda>x. map_sum id g (f x))"
  by (cases m) simp_all

lemma map_sum_fst_eq:
  assumes "map_sum id fst x = map_sum id fst y"
  shows "(\<exists>e. x = Inl e \<and> y = Inl e) \<or> (\<exists>r s t. x = Inr (r, s) \<and> y = Inr (r, t))"
  using assms by (cases x; cases y) auto

lemma slot_case_not_function:
  "\<not> is_function s \<Longrightarrow> (case s of Absent \<Rightarrow> b | NotFn v \<Rightarrow> b | Fn f \<Rightarrow> a f) = b"
  by (cases s) auto

lemma no_handlers:
  assumes "parse_opt opts = None"
  shows "\<not> is_function (tag_fn (parsers_of (new_Comments opts) no_options))"
    and "\<not> is_function (parseTags_fn (parsers_of (new_Comments opts) no_options))"
    and "\<not> is_function (comment_fn (parsers_of (new_Comments opts) no_options))"
  using assms
  by (simp_all add: new_Comments_def merge_options_def no_options_def merge_parsers_def
        no_parsers_def)

lemma parse_opt_examples:
  "parse_opt no_options = None" "parse_opt strict_options = None"
  by (simp_all add: no_options_def strict_options_def)

subsection \<open>Arguments that are not strings\<close>

text \<open>
  Claim C10. For every input that is not a string, \<^verbatim>\<open>parseType\<close>, \<^verbatim>\<open>parseInlineTags\<close> and
  \<^verbatim>\<open>parseParamType\<close> throw the TypeError \<^verbatim>\<open>expected a string\<close>, whatever the collaborators,
  the options of the instance and of the call (so also \<^verbatim>\<open>strict\<close>) and the registered
  middleware are: none of them is consulted.
\<close>

theorem non_string_input_throws:
  "typeof v \<noteq> ''string'' \<Longrightarrow>
     parseType L this v tag opts = Inl ExpectedString
     \<and> parseInlineTags L this v opts = Inl ExpectedString
     \<and> parseParamType L this v opts = Inl ExpectedString"
  by (simp add: parseType_def parseInlineTags_def parseParamType_def)

theorem non_string_input_throws_witness:
  "typeof (JNum 5) \<noteq> ''string''
   \<and> parseType spec_lib (new_Comments strict_options) (JNum 5) [] no_options
       = Inl ExpectedString
   \<and> parseInlineTags spec_lib (new_Comments strict_options) (JNum 5) no_options
       = Inl ExpectedString
   \<and> parseParamType spec_lib (new_Comments strict_options) (JNum 5) no_options
       = Inl ExpectedString"
proof -
  have h: "typeof (JNum 5) \<noteq> ''string''" by simp
  show ?thesis using h non_string_input_throws [OF h] by simp
qed

subsection \<open>The dispatcher\<close>





lemma run_unregistered:
  "getprop node ''type'' = Inr t \<Longrightarrow> map_of (plugins this type) (to_string t) = None \<Longrightarrow>
   to_string t \<notin> set object_prototype_keys \<Longrightarrow> run this type node = Inr node"
  by (simp add: run_def run_with_def lookup_plain_def)

lemma run_loop_falsy:
  "f node = Inr (ret, node') \<Longrightarrow> \<not> truthy ret \<Longrightarrow>
   run_loop type (HookFn f # fns) node = run_loop type fns node'"
  by simp

lemma run_loop_truthy:
  "f node = Inr (ret, node') \<Longrightarrow> truthy ret \<Longrightarrow>
   run_loop type (HookFn f # fns) node = run_loop type fns ret"
  by simp

lemma push_hook_appends:
  "k \<notin> set object_prototype_keys \<Longrightarrow>
   \<exists>tbl'. push_hook tbl k fn = Inr tbl'
     \<and> map_of tbl' k = Some ((case map_of tbl k of None \<Rightarrow> [] | Some fns \<Rightarrow> fns) @ [fn])
     \<and> (\<forall>k'. k' \<noteq> k \<longrightarrow> map_of tbl' k' = map_of tbl k')"
  by (auto simp: push_hook_def lookup_plain_def update_conv' split: option.splits)

lemma parseTag_handler_throws:
  assumes "tag_fn (parsers_of this opts0) = Fn h"
    and "getprop (wrap_tok tok0) ''raw'' = Inr raw"
    and "h (self_of this) raw (settings (merge_options (options this) opts0)) = Inl e"
  shows "parseTag L this tok0 opts0 = Inl e"
  using assms by (simp add: parseTag_def Let_def)




text \<open>
  The same parse throws that error, in both modes, once a \<^verbatim>\<open>tag\<close> handler calls
  \<^verbatim>\<open>this.run('before')\<close>.
\<close>

lemma run_in_tag_handler_throws:
  "map_sum id fst
     (parseComment spec_lib (with_running_tag misconfigured)
        (JObj [(''value'', JStr ''@param x'')]) no_options)
     = Inl (ExpectedPlugin (JNum 3)
              (JObj [(''type'', JStr ''param''), (''name'', JStr ''X'')]) Before)"
  "map_sum id fst
     (parseComment spec_lib (with_running_tag misconfigured)
        (JObj [(''value'', JStr ''@param x'')]) strict_options)
     = Inl (ExpectedPlugin (JNum 3)
              (JObj [(''type'', JStr ''param''), (''name'', JStr ''X'')]) Before)"
  by code_simp+

text \<open>
  The function \<^verbatim>\<open>run\<close> returns applies the handlers registered for the type of the node
  in the order of the list, each to the node the one before it produced, and
  \<^verbatim>\<open>before\<close> and \<^verbatim>\<open>after\<close> append to that list: \<open>run_registered\<close>, \<open>run_loop_truthy\<close>,
  \<open>run_loop_falsy\<close>, \<open>push_hook_appends\<close>. A node whose type has no handler is
  returned as it is (\<open>run_unregistered\<close>) unless the type names a property of
  \<^verbatim>\<open>Object.prototype\<close>.

  Claim C5, at the input where the code departs from it. On a new instance, with no
  handler registered, the function \<^verbatim>\<open>run('before')\<close> returns throws on a node of type
  \<^verbatim>\<open>constructor\<close>: \<^verbatim>\<open>plugins[node.type]\<close> is the inherited \<^verbatim>\<open>Object\<close> function, which is truthy
  and not iterable. The claim has the node returned unchanged. For the same reason no
  handler can be registered for that type: \<^verbatim>\<open>before('constructor', fn)\<close> throws at line 150.
\<close>

theorem run_inherited_type_throws:
  "run (new_Comments no_options) Before (JObj [(''type'', JStr ''constructor'')])
     = Inl (NativeTypeError ''fns is not iterable'')
   \<and> before (new_Comments no_options) (Key ''constructor'') (HookVal JNull)
     = Inl (NativeTypeError ''push is not a function'')"
  by (simp add: run_def run_with_def fld_def plugins_def new_Comments_def lookup_plain_def
        object_prototype_keys_def before_def push_hook_def)

subsection \<open>Tags\<close>

lemma parseTag_parsed:
  assumes "\<not> is_function (tag_fn (parsers_of this opts0))"
    and "parse_tag L (wrap_tok tok0) = Inr (Some tag)"
  shows "parseTag L this tok0 opts0 =
     (if truthy (fld tag ''rawType'') \<and> \<not> allows_type L (wrap_tok tok0) then Inr None
      else
        andThen
          (if truthy (fld tag ''rawType'') then
             andThen (slice_1_m1 (fld tag ''rawType'')) (\<lambda>str.
               andThen (parseType L this str tag opts0) (\<lambda>t. Inr (setfld tag ''type'' t)))
           else Inr tag)
          (\<lambda>tag'.
             if expects_type L tag' \<and> \<not> truthy (fld tag' ''type'') then
               (if fld (settings (merge_options (options this) opts0)) ''strict'' = JBool True
                then Inr None
                else finish_tag L this (setfld tag' ''type'' JNull)
                       (merge_options (options this) opts0))
             else finish_tag L this tag' (merge_options (options this) opts0)))"
  using assms
  by (simp add: parseTag_def Let_def slot_case_not_function)

lemma parseTag_tag_error:
  assumes "\<not> is_function (tag_fn (parsers_of this opts0))"
    and "parse_tag L (wrap_tok tok0) = Inl err"
  shows "parseTag L this tok0 opts0 =
     (if truthy (fld (settings (merge_options (options this) opts0)) ''strict'')
      then Inl err else Inr None)"
  using assms
  by (simp add: parseTag_def Let_def slot_case_not_function)

lemma parseTag_type_error:
  assumes "\<not> is_function (tag_fn (parsers_of this opts0))"
    and "parse_tag L (wrap_tok tok0) = Inr (Some tag)"
    and "truthy (fld tag ''rawType'')"
    and "allows_type L (wrap_tok tok0)"
    and "slice_1_m1 (fld tag ''rawType'') = Inr str"
    and "parseType L this str tag opts0 = Inl err"
  shows "parseTag L this tok0 opts0 = Inl err"
  using assms by (simp add: parseTag_parsed)

text \<open>
  Claim C1, amended. When no \<^verbatim>\<open>tag\<close> handler is registered, \<^verbatim>\<open>lib.parse.tag\<close> returns a tag
  with a type literal (a truthy \<^verbatim>\<open>rawType\<close>) and \<^verbatim>\<open>lib.allows.type\<close> is false for the token,
  \<^verbatim>\<open>parseTag\<close> returns \<^verbatim>\<open>null\<close> (line 395-397): the tag is rejected, in strict and in
  non-strict mode alike. It is not retained with a null type.
\<close>

theorem parseTag_type_not_allowed:
  assumes "\<not> is_function (tag_fn (parsers_of this opts0))"
    and "parse_tag L (wrap_tok tok0) = Inr (Some tag)"
    and "truthy (fld tag ''rawType'')"
    and "\<not> allows_type L (wrap_tok tok0)"
  shows "parseTag L this tok0 opts0 = Inr None"
  using assms by (simp add: parseTag_parsed)

theorem parseTag_type_not_allowed_witness:
  "parse_tag spec_lib (wrap_tok (JStr ''@private {string}''))
     = Inr (Some [(''title'', JStr ''private''), (''rawType'', JStr ''{string}''),
                  (''description'', JStr [])])
   \<and> \<not> allows_type spec_lib (wrap_tok (JStr ''@private {string}''))
   \<and> parseTag spec_lib (new_Comments no_options) (JStr ''@private {string}'') no_options
       = Inr None
   \<and> parseTag spec_lib (new_Comments strict_options) (JStr ''@private {string}'') no_options
       = Inr None"
proof -
  let ?tag = "[(''title'', JStr ''private''), (''rawType'', JStr ''{string}''),
               (''description'', JStr [])]"
  have p: "parse_tag spec_lib (wrap_tok (JStr ''@private {string}'')) = Inr (Some ?tag)"
    by code_simp
  have t: "truthy (fld ?tag ''rawType'')" by code_simp
  have a: "\<not> allows_type spec_lib (wrap_tok (JStr ''@private {string}''))" by code_simp
  note h = no_handlers(1) [OF parse_opt_examples(1)] no_handlers(1) [OF parse_opt_examples(2)]
  show ?thesis
    using p a parseTag_type_not_allowed [OF h(1) p t a] parseTag_type_not_allowed [OF h(2) p t a]
    by (intro conjI)
qed

text \<open>
  The claim as stated fails on its own example: in non-strict mode
  \<^verbatim>\<open>parseTag("@private {string}")\<close> is \<^verbatim>\<open>null\<close>.
\<close>

theorem private_with_type_counterexample:
  "parseTag spec_lib (new_Comments no_options) (JStr ''@private {string}'') no_options = Inr None"
  by code_simp

lemma finish_tag_accepted:
  assumes "normalize_tag L tag (settings opts) = Inr (Some tag1)"
    and "validate_tag L tag1 (settings opts) = Inr (Some tag2)"
    and "\<not> truthy (fld tag2 ''description'')"
  shows "finish_tag L this tag opts = Inr (Some tag2)"
  using assms by (simp add: finish_tag_def inline_description_def)

text \<open>
  Claim C6. When no \<^verbatim>\<open>tag\<close> handler is registered, \<^verbatim>\<open>lib.parse.tag\<close> returns a tag with no
  type literal and no type, and \<^verbatim>\<open>lib.expects.type\<close> holds of it: with \<^verbatim>\<open>strict\<close> equal to
  \<^verbatim>\<open>true\<close> \<^verbatim>\<open>parseTag\<close> returns \<^verbatim>\<open>null\<close> and throws nothing; otherwise it sets the type to
  \<^verbatim>\<open>null\<close> and goes on with that tag (lines 410-426), which it returns when
  \<^verbatim>\<open>lib.normalize.tag\<close> and \<^verbatim>\<open>lib.validate.tag\<close> return it (\<open>finish_tag_accepted\<close>).
\<close>

theorem parseTag_type_expected:
  assumes "\<not> is_function (tag_fn (parsers_of this opts0))"
    and "parse_tag L (wrap_tok tok0) = Inr (Some tag)"
    and "\<not> truthy (fld tag ''rawType'')"
    and "\<not> truthy (fld tag ''type'')"
    and "expects_type L tag"
  shows "parseTag L this tok0 opts0 =
     (if fld (settings (merge_options (options this) opts0)) ''strict'' = JBool True
      then Inr None
      else finish_tag L this (setfld tag ''type'' JNull) (merge_options (options this) opts0))"
  using assms by (simp add: parseTag_parsed)

theorem parseTag_type_expected_witness:
  "parseTag spec_lib (new_Comments no_options) (JStr ''@param name The name'') no_options
     = Inr (Some [(''title'', JStr ''param''), (''name'', JStr ''name''),
                  (''description'', JStr ''The name''), (''type'', JNull),
                  (''inlineTags'', JArr [])])
   \<and> parseTag spec_lib (new_Comments strict_options) (JStr ''@param name The name'') no_options
     = Inr None"
proof -
  let ?tok = "JStr ''@param name The name''"
  let ?tag = "[(''title'', JStr ''param''), (''name'', JStr ''name''),
               (''description'', JStr ''The name'')]"
  have p: "parse_tag spec_lib (wrap_tok ?tok) = Inr (Some ?tag)" by code_simp
  have r: "\<not> truthy (fld ?tag ''rawType'')" by code_simp
  have t: "\<not> truthy (fld ?tag ''type'')" by code_simp
  have e: "expects_type spec_lib ?tag" by code_simp
  note h = no_handlers(1) [OF parse_opt_examples(1)] no_handlers(1) [OF parse_opt_examples(2)]
  have 1: "(if fld (settings (merge_options (options (new_Comments no_options)) no_options))
                ''strict'' = JBool True
            then Inr None
            else finish_tag spec_lib (new_Comments no_options) (setfld ?tag ''type'' JNull)
                   (merge_options (options (new_Comments no_options)) no_options))
           = Inr (Some [(''title'', JStr ''param''), (''name'', JStr ''name''),
                  (''description'', JStr ''The name''), (''type'', JNull),
                  (''inlineTags'', JArr [])])"
    by code_simp
  have 2: "(if fld (settings (merge_options (options (new_Comments strict_options)) no_options))
                ''strict'' = JBool True
            then Inr None
            else finish_tag spec_lib (new_Comments strict_options) (setfld ?tag ''type'' JNull)
                   (merge_options (options (new_Comments strict_options)) no_options))
           = Inr None"
    by code_simp
  show ?thesis
    using parseTag_type_expected [OF h(1) p r t e, unfolded 1]
          parseTag_type_expected [OF h(2) p r t e, unfolded 2]
    by (intro conjI)
qed

text \<open>
  An error of \<^verbatim>\<open>lib.parse.tag\<close> is thrown on when \<^verbatim>\<open>strict\<close> is truthy and gives \<^verbatim>\<open>null\<close>
  otherwise (\<open>parseTag_tag_error\<close>). Line 400 is outside the \<^verbatim>\<open>try\<close> of lines 388-393,
  so an error of the type parse is thrown on whatever \<^verbatim>\<open>strict\<close> is
  (\<open>parseTag_type_error\<close>).

  Claim C3, at the input where the code departs from it. In non-strict mode
  \<^verbatim>\<open>parseTag\<close> throws the TypeSyntaxError of the type literal \<^verbatim>\<open>function(...a\<close>, and so
  does \<^verbatim>\<open>parseComment\<close> on a comment with that tag and a well-formed one. The claim has
  \<^verbatim>\<open>parseTag\<close> return \<^verbatim>\<open>null\<close> and the rest of the comment parsed.
\<close>

theorem type_error_not_swallowed:
  "parseTag spec_lib (new_Comments no_options) (JStr ''@param {function(...a} x'') no_options
     = Inl (Thrown (JStr ''TypeSyntaxError''))
   \<and> map_sum id fst
       (parseComment spec_lib (new_Comments no_options)
          (JObj [(''value'', JStr ''@param {function(...a} x\<newline>@returns {Number} n'')])
          no_options)
     = Inl (Thrown (JStr ''TypeSyntaxError''))"
  by code_simp

subsection \<open>Tag lists\<close>

lemma parseTags_loop_all:
  assumes "\<forall>raw \<in> set raws. \<exists>r. parseTag L this raw opts = Inr r"
  shows "parseTags_loop L this opts raws tags
           = Inr (tags @ List.map_filter (kept_tag L this opts) raws)"
  using assms
proof (induction raws arbitrary: tags)
  case Nil
  then show ?case by (simp add: List.map_filter_simps)
next
  case (Cons raw raws)
  then obtain r where r: "parseTag L this raw opts = Inr r" by auto
  show ?case
  proof (cases r)
    case None
    with r Cons show ?thesis by (simp add: List.map_filter_simps kept_tag_def)
  next
    case (Some tag)
    with r Cons show ?thesis by (simp add: List.map_filter_simps kept_tag_def)
  qed
qed

lemma parseTags_loop_throws:
  "raw \<in> set raws \<Longrightarrow> parseTag L this raw opts = Inl e \<Longrightarrow>
   \<exists>e'. parseTags_loop L this opts raws tags = Inl e'"
  by (induction raws arbitrary: tags) (auto split: sum.splits option.splits)

text \<open>
  Claim C7. When no \<^verbatim>\<open>parseTags\<close> handler is registered, \<^verbatim>\<open>comment.tags\<close> is an array and
  no call of \<^verbatim>\<open>parseTag\<close> on its elements throws, \<^verbatim>\<open>parseTags\<close> returns the tags of the
  elements on which \<^verbatim>\<open>parseTag\<close> did not return \<^verbatim>\<open>null\<close>, in the order of the elements;
  the empty array is such a result.
\<close>

theorem parseTags_keeps_parsed_in_order:
  assumes "\<not> is_function (parseTags_fn (parsers_of this opts0))"
    and "fld comment ''tags'' = JArr raws"
    and "\<forall>raw \<in> set raws.
           \<exists>r. parseTag L this raw (merge_options (options this) opts0) = Inr r"
  shows "parseTags L this comment opts0
           = Inr (JArr (List.map_filter
                          (kept_tag L this (merge_options (options this) opts0)) raws))"
  using assms
  by (simp add: parseTags_def Let_def slot_case_not_function parseTags_loop_all)

theorem parseTags_keeps_parsed_in_order_witness:
  "parseTags spec_lib (new_Comments no_options)
     [(''tags'', JArr [JStr ''@param {String} name'', JStr ''@private {x}'',
                       JStr ''@returns {Number}''])] no_options
     = Inr (JArr
         [JObj [(''title'', JStr ''param''), (''rawType'', JStr ''{String}''),
                (''name'', JStr ''name''), (''description'', JStr []),
                (''type'', JObj [(''type'', JStr ''NameType''), (''name'', JStr ''String'')]),
                (''raw'', JStr ''@param {String} name'')],
          JObj [(''title'', JStr ''returns''), (''rawType'', JStr ''{Number}''),
                (''description'', JStr []),
                (''type'', JObj [(''type'', JStr ''NameType''), (''name'', JStr ''Number'')]),
                (''raw'', JStr ''@returns {Number}'')]])
   \<and> parseTags spec_lib (new_Comments no_options) [(''tags'', JArr [])] no_options
     = Inr (JArr [])"
proof -
  let ?inst = "new_Comments no_options"
  let ?opts = "merge_options (options ?inst) no_options"
  let ?raws = "[JStr ''@param {String} name'', JStr ''@private {x}'', JStr ''@returns {Number}'']"
  note h = no_handlers(2) [OF parse_opt_examples(1)]
  have a: "\<exists>r. parseTag spec_lib ?inst (JStr ''@param {String} name'') ?opts = Inr r"
    by (rule exI [of _ "Some [(''title'', JStr ''param''), (''rawType'', JStr ''{String}''),
                (''name'', JStr ''name''), (''description'', JStr []),
                (''type'', JObj [(''type'', JStr ''NameType''), (''name'', JStr ''String'')])]"])
       code_simp
  have b: "\<exists>r. parseTag spec_lib ?inst (JStr ''@private {x}'') ?opts = Inr r"
    by (rule exI [of _ None]) code_simp
  have c: "\<exists>r. parseTag spec_lib ?inst (JStr ''@returns {Number}'') ?opts = Inr r"
    by (rule exI [of _ "Some [(''title'', JStr ''returns''), (''rawType'', JStr ''{Number}''),
                (''description'', JStr []),
                (''type'', JObj [(''type'', JStr ''NameType''), (''name'', JStr ''Number'')])]"])
       code_simp
  have all: "\<forall>raw \<in> set ?raws. \<exists>r. parseTag spec_lib ?inst raw ?opts = Inr r"
    using a b c by simp
  have none: "\<forall>raw \<in> set []. \<exists>r. parseTag spec_lib ?inst raw ?opts = Inr r"
    by simp
  have f1: "fld [(''tags'', JArr ?raws)] ''tags'' = JArr ?raws" by (simp add: fld_def)
  have f2: "fld [(''tags'', JArr [])] ''tags'' = JArr []" by (simp add: fld_def)
  have v1: "List.map_filter (kept_tag spec_lib ?inst ?opts) ?raws =
         [JObj [(''title'', JStr ''param''), (''rawType'', JStr ''{String}''),
                (''name'', JStr ''name''), (''description'', JStr []),
                (''type'', JObj [(''type'', JStr ''NameType''), (''name'', JStr ''String'')]),
                (''raw'', JStr ''@param {String} name'')],
          JObj [(''title'', JStr ''returns''), (''rawType'', JStr ''{Number}''),
                (''description'', JStr []),
                (''type'', JObj [(''type'', JStr ''NameType''), (''name'', JStr ''Number'')]),
                (''raw'', JStr ''@returns {Number}'')]]"
    by code_simp
  have v2: "List.map_filter (kept_tag spec_lib ?inst ?opts) [] = []"
    by (simp add: List.map_filter_simps)
  show ?thesis
    using parseTags_keeps_parsed_in_order [OF h f1 all, unfolded v1]
          parseTags_keeps_parsed_in_order [OF h f2 none, unfolded v2]
    by (intro conjI)
qed

subsection \<open>Comments\<close>

text \<open>
  The methods below \<^verbatim>\<open>parseComment\<close> read the instance only through its options and its
  middleware, and pass it to the handlers they call; \<^verbatim>\<open>parseComment\<close> passes the instance
  to \<^verbatim>\<open>lib.format\<close> when \<^verbatim>\<open>opts.format\<close> is \<^verbatim>\<open>true\<close>.
\<close>

lemma override_idem: "override a (override a b) = override a b"
  by (cases b; cases a) (simp_all add: override_def)

lemma merge_options_slots:
  "parse_opt (merge_options x (merge_options x opts)) = parse_opt (merge_options x opts)"
  "extract_opt (merge_options x (merge_options x opts)) = extract_opt (merge_options x opts)"
  "preprocess_opt (merge_options x (merge_options x opts))
     = preprocess_opt (merge_options x opts)"
  by (simp_all add: merge_options_def override_idem split: option.splits)

lemma calls_no_handler_merge:
  "calls_no_handler b (merge_options (options b) opts0) = calls_no_handler b opts0"
  by (simp add: calls_no_handler_def Let_def merge_options_slots)

lemma handlers_see_same_merge:
  assumes "handlers_see_same a b opts0"
  shows "handlers_see_same a b (merge_options (options b) opts0)"
  using assms by (simp add: handlers_see_same_def calls_no_handler_merge)

lemma handlers_see_same_step:
  assumes "handlers_see_same a b opts0"
    and "same_pipeline x a" and "same_pipeline y b"
  shows "handlers_see_same x y opts0"
  using assms
  by (auto simp: handlers_see_same_def same_pipeline_def self_of_def calls_no_handler_def)

lemma handlers_see_same_self:
  assumes "handlers_see_same a b opts0"
  shows "comment_fn (parsers_of b opts0) = Fn f1 \<Longrightarrow> self_of a = self_of b"
    and "parseTags_fn (parsers_of b opts0) = Fn f2 \<Longrightarrow> self_of a = self_of b"
    and "tag_fn (parsers_of b opts0) = Fn f3 \<Longrightarrow> self_of a = self_of b"
    and "inlineTag_fn (parsers_of b opts0) = Fn f4 \<Longrightarrow> self_of a = self_of b"
    and "type_fn (parsers_of b opts0) = Fn f5 \<Longrightarrow> self_of a = self_of b"
    and "extract_opt (merge_options (options b) opts0) = Fn f6 \<Longrightarrow> self_of a = self_of b"
    and "preprocess_opt (merge_options (options b) opts0) = Fn f7 \<Longrightarrow> self_of a = self_of b"
  using assms by (auto simp: handlers_see_same_def calls_no_handler_def Let_def)

lemma tokenize_cong:
  assumes "options a = options b"
  shows "tokenize L a = tokenize L b"
  unfolding fun_eq_iff tokenize_def assms by simp

lemma parseInlineTags_cong:
  assumes "options a = options b" and "middleware a = middleware b"
    and "handlers_see_same a b opts0"
  shows "parseInlineTags L a str opts0 = parseInlineTags L b str opts0"
proof (cases "inlineTag_fn (parsers_of b opts0)")
  case (Fn f)
  then have s: "self_of a = self_of b" by (rule handlers_see_same_self(4) [OF assms(3)])
  show ?thesis unfolding parseInlineTags_def Let_def assms(1,2) s by simp
next
  case Absent
  show ?thesis unfolding parseInlineTags_def Let_def assms(1,2) Absent by simp
next
  case (NotFn v)
  show ?thesis unfolding parseInlineTags_def Let_def assms(1,2) NotFn by simp
qed

lemma parseType_cong:
  assumes "options a = options b" and "middleware a = middleware b"
    and "handlers_see_same a b opts0"
  shows "parseType L a str tag opts0 = parseType L b str tag opts0"
proof (cases "type_fn (parsers_of b opts0)")
  case (Fn f)
  then have s: "self_of a = self_of b" by (rule handlers_see_same_self(5) [OF assms(3)])
  show ?thesis unfolding parseType_def Let_def assms(1,2) s by simp
next
  case Absent
  show ?thesis unfolding parseType_def Let_def assms(1,2) Absent by simp
next
  case (NotFn v)
  show ?thesis unfolding parseType_def Let_def assms(1,2) NotFn by simp
qed

lemma inline_description_cong:
  assumes "options a = options b" and "middleware a = middleware b"
    and "handlers_see_same a b opts"
  shows "inline_description L a node opts = inline_description L b node opts"
  unfolding inline_description_def parseInlineTags_cong [OF assms] by simp

lemma finish_tag_cong:
  assumes "options a = options b" and "middleware a = middleware b"
    and "handlers_see_same a b opts"
  shows "finish_tag L a tag opts = finish_tag L b tag opts"
  unfolding finish_tag_def inline_description_cong [OF assms] by simp

lemma parseTag_cong:
  assumes "options a = options b" and "middleware a = middleware b"
    and "handlers_see_same a b opts0"
  shows "parseTag L a tok opts0 = parseTag L b tok opts0"
proof -
  note m = handlers_see_same_merge [OF assms(3)]
  show ?thesis
  proof (cases "tag_fn (parsers_of b opts0)")
    case (Fn f)
    then have s: "self_of a = self_of b" by (rule handlers_see_same_self(3) [OF assms(3)])
    show ?thesis unfolding parseTag_def Let_def assms(1,2) s Fn by simp
  next
    case Absent
    show ?thesis
      unfolding parseTag_def Let_def assms(1,2) Absent finish_tag_cong [OF assms(1,2) m]
        parseType_cong [OF assms]
      by simp
  next
    case (NotFn v)
    show ?thesis
      unfolding parseTag_def Let_def assms(1,2) NotFn finish_tag_cong [OF assms(1,2) m]
        parseType_cong [OF assms]
      by simp
  qed
qed

lemma parseTags_loop_cong:
  assumes "options a = options b" and "middleware a = middleware b"
    and "handlers_see_same a b opts"
  shows "parseTags_loop L a opts raws tags = parseTags_loop L b opts raws tags"
  by (induction raws arbitrary: tags)
     (simp_all add: parseTag_cong [OF assms] split: sum.splits option.splits)

lemma parseTags_cong:
  assumes "options a = options b" and "middleware a = middleware b"
    and "handlers_see_same a b opts0"
  shows "parseTags L a comment opts0 = parseTags L b comment opts0"
proof -
  note m = handlers_see_same_merge [OF assms(3)]
  show ?thesis
  proof (cases "parseTags_fn (parsers_of b opts0)")
    case (Fn f)
    then have s: "self_of a = self_of b" by (rule handlers_see_same_self(2) [OF assms(3)])
    show ?thesis unfolding parseTags_def Let_def assms(1,2) s Fn by simp
  next
    case Absent
    show ?thesis
      unfolding parseTags_def Let_def assms(1,2) Absent parseTags_loop_cong [OF assms(1,2) m]
      by simp
  next
    case (NotFn v)
    show ?thesis
      unfolding parseTags_def Let_def assms(1,2) NotFn parseTags_loop_cong [OF assms(1,2) m]
      by simp
  qed
qed

lemma isValid_cong:
  assumes "options a = options b"
  shows "isValid L a = isValid L b"
  unfolding fun_eq_iff isValid_def assms by simp

lemma preprocess_cong:
  assumes "options a = options b" and "handlers_see_same a b opts0"
  shows "preprocess L a comment opts0 = preprocess L b comment opts0"
proof (cases "preprocess_opt (merge_options (options b) opts0)")
  case (Fn f)
  then have s: "self_of a = self_of b" by (rule handlers_see_same_self(7) [OF assms(2)])
  show ?thesis unfolding preprocess_def Let_def assms(1) s by simp
next
  case Absent
  show ?thesis unfolding preprocess_def Let_def assms(1) Absent by simp
next
  case (NotFn v)
  show ?thesis unfolding preprocess_def Let_def assms(1) NotFn by simp
qed

lemma finishComment_value:
  "map_sum id fst (finishComment L s comment opts) =
     andThen (inline_description L s comment opts) (\<lambda>c1.
       if fld (settings opts) ''format'' = JBool True
       then format L s c1 (settings opts) else Inr c1)"
proof (cases "inline_description L s comment opts")
  case (Inl e)
  then show ?thesis by (simp add: finishComment_def)
next
  case (Inr c1)
  then show ?thesis
    by (cases "format L s c1 (settings opts)") (simp_all add: finishComment_def)
qed

lemma finishComment_state:
  assumes "finishComment L a comment opts = Inr (r, s)"
  shows "s = emit a ''comment'' (JObj r)"
proof (cases "inline_description L a comment opts")
  case (Inl e)
  with assms show ?thesis by (simp add: finishComment_def)
next
  case (Inr c1)
  with assms show ?thesis
    by (cases "format L a c1 (settings opts)")
       (auto simp add: finishComment_def split: if_splits)
qed

lemma format_insensitiveD:
  assumes "format_insensitive L opts a b"
    and "same_pipeline x a" and "same_pipeline y b"
  shows "(if fld (settings opts) ''format'' = JBool True
          then format L x c (settings opts) else Inr c)
       = (if fld (settings opts) ''format'' = JBool True
          then format L y c (settings opts) else Inr c)"
  using assms by (simp add: format_insensitive_def)

lemma format_insensitive_step:
  assumes "format_insensitive L opts a b"
    and "same_pipeline a' a" and "same_pipeline b' b"
  shows "format_insensitive L opts a' b'"
  using assms by (simp add: format_insensitive_def same_pipeline_def)

lemma format_insensitive_right:
  assumes "format_insensitive L opts a b"
  shows "format_insensitive L opts b b"
proof -
  have a: "same_pipeline a a" by (simp add: same_pipeline_def)
  show ?thesis
    unfolding format_insensitive_def
  proof (intro impI allI)
    fix x y
    assume f: "fld (settings opts) ''format'' = JBool True"
      and x: "same_pipeline x b" and y: "same_pipeline y b"
    from assms f a x have "format L a = format L x" by (simp add: format_insensitive_def)
    moreover from assms f a y have "format L a = format L y" by (simp add: format_insensitive_def)
    ultimately show "format L x = format L y" by simp
  qed
qed

lemma finishComment_value_eq:
  assumes "format_insensitive L opts a b"
    and "same_pipeline x a" and "same_pipeline y b"
    and "options a = options b" and "middleware a = middleware b"
    and "handlers_see_same a b opts"
  shows "map_sum id fst (finishComment L x comment opts)
       = map_sum id fst (finishComment L y comment opts)"
proof -
  have h: "handlers_see_same x y opts"
    using assms(6,2,3) by (rule handlers_see_same_step)
  have "inline_description L x comment opts = inline_description L y comment opts"
    using assms(2-5) h by (intro inline_description_cong) (simp_all add: same_pipeline_def)
  then show ?thesis
    by (simp add: finishComment_value format_insensitiveD [OF assms(1-3)])
qed

lemma parseComment_node_finish:
  assumes "parseComment_node L a comment opts0 = Inr (r, s)"
  shows "\<exists>tk c. finishComment L (a\<lparr>tokens := tokens a @ tk\<rparr>) c
                  (merge_options (options a) opts0) = Inr (r, s)"
proof (cases "comment_fn (parsers_of a opts0)")
  case (Fn f)
  with assms obtain c where
    "finishComment L a c (merge_options (options a) opts0) = Inr (r, s)"
    by (auto simp: parseComment_node_def Let_def andThen_eq_Inr)
  then have "finishComment L (a\<lparr>tokens := tokens a @ []\<rparr>) c
               (merge_options (options a) opts0) = Inr (r, s)"
    by simp
  then show ?thesis by blast
next
  case Absent
  with assms show ?thesis
    by (auto simp: parseComment_node_def Let_def andThen_eq_Inr)
next
  case (NotFn v)
  with assms show ?thesis
    by (auto simp: parseComment_node_def Let_def andThen_eq_Inr)
qed

lemma parseComment_node_state:
  assumes "parseComment_node L a comment opts0 = Inr (r, s)"
  shows "\<exists>tk. s = a\<lparr>tokens := tokens a @ tk, emitted := emitted a @ [(''comment'', JObj r)]\<rparr>"
proof -
  from parseComment_node_finish [OF assms] obtain tk c where
    "finishComment L (a\<lparr>tokens := tokens a @ tk\<rparr>) c
       (merge_options (options a) opts0) = Inr (r, s)"
    by blast
  then have "s = emit (a\<lparr>tokens := tokens a @ tk\<rparr>) ''comment'' (JObj r)"
    by (rule finishComment_state)
  then have "s = a\<lparr>tokens := tokens a @ tk, emitted := emitted a @ [(''comment'', JObj r)]\<rparr>"
    by (simp add: emit_def)
  then show ?thesis by blast
qed

lemma parseComment_node_value:
  assumes "options a = options b" and "middleware a = middleware b"
    and "format_insensitive L (merge_options (options b) opts0) a b"
    and "handlers_see_same a b opts0"
  shows "map_sum id fst (parseComment_node L a comment opts0)
       = map_sum id fst (parseComment_node L b comment opts0)"
proof -
  let ?opts = "merge_options (options b) opts0"
  note m = handlers_see_same_merge [OF assms(4)]
  have bb: "handlers_see_same b b opts" for opts
    by (simp add: handlers_see_same_def)
  have 1: "map_sum id fst (finishComment L (a\<lparr>tokens := t\<rparr>) c ?opts)
         = map_sum id fst (finishComment L b c ?opts)" for t c
    using assms(3) by (rule finishComment_value_eq) (simp_all add: same_pipeline_def assms(1,2) m)
  have 2: "map_sum id fst (finishComment L a c ?opts)
         = map_sum id fst (finishComment L b c ?opts)" for c
    using assms(3) by (rule finishComment_value_eq) (simp_all add: same_pipeline_def assms(1,2) m)
  have 3: "map_sum id fst (finishComment L (b\<lparr>tokens := t\<rparr>) c ?opts)
         = map_sum id fst (finishComment L b c ?opts)" for t c
    using format_insensitive_right [OF assms(3)]
    by (rule finishComment_value_eq) (simp_all add: same_pipeline_def bb)
  have 4: "parseTags L (a\<lparr>tokens := t\<rparr>) c opts0 = parseTags L b c opts0" for t c
  proof (rule parseTags_cong)
    show "handlers_see_same (a\<lparr>tokens := t\<rparr>) b opts0"
      using assms(4) by (rule handlers_see_same_step) (simp_all add: same_pipeline_def)
  qed (simp_all add: assms(1,2))
  have 5: "parseTags L (b\<lparr>tokens := t\<rparr>) c opts0 = parseTags L b c opts0" for t c
  proof (rule parseTags_cong)
    show "handlers_see_same (b\<lparr>tokens := t\<rparr>) b opts0"
      by (simp add: handlers_see_same_def self_of_def)
  qed simp_all
  have 6: "tokenize L a = tokenize L b"
    using assms by (intro tokenize_cong)
  show ?thesis
  proof (cases "comment_fn (merge_parsers (middleware b) (parse_opt ?opts))")
    case (Fn f)
    then have s: "self_of a = self_of b" by (rule handlers_see_same_self(1) [OF assms(4)])
    show ?thesis
      unfolding parseComment_node_def Let_def assms(1,2) s Fn
      by (simp add: map_sum_andThen 2)
  next
    case Absent
    show ?thesis
      unfolding parseComment_node_def Let_def assms(1,2) Absent
      by (simp add: map_sum_andThen 1 3 4 5 6)
  next
    case (NotFn v)
    show ?thesis
      unfolding parseComment_node_def Let_def assms(1,2) NotFn
      by (simp add: map_sum_andThen 1 3 4 5 6)
  qed
qed

lemma extract_loop_state:
  assumes "extract_loop L opts0 (Some (\<lambda>c t. parseComment_node L t (JObj c) opts1)) cs res a
             = Inr (res', s)"
  shows "\<exists>news tk. res' = res @ news
           \<and> s = a\<lparr>tokens := tokens a @ tk,
                      emitted := emitted a @ map (\<lambda>c. (''comment'', JObj c)) news\<rparr>"
  using assms
proof (induction cs arbitrary: res a)
  case Nil
  then have "res' = res @ [] \<and> s = a\<lparr>tokens := tokens a @ [],
      emitted := emitted a @ map (\<lambda>c. (''comment'', JObj c)) []\<rparr>"
    by simp
  then show ?case by blast
next
  case (Cons c cs)
  from Cons.prems obtain ok where ok: "isValid L a c opts0 = Inr ok"
    by (cases "isValid L a c opts0") simp_all
  show ?case
  proof (cases "ok = JBool False")
    case True
    with Cons.prems ok have "extract_loop L opts0
        (Some (\<lambda>c t. parseComment_node L t (JObj c) opts1)) cs res a = Inr (res', s)"
      by simp
    then show ?thesis by (rule Cons.IH)
  next
    case False
    from Cons.prems ok False obtain comment where pre: "preprocess L a c opts0 = Inr comment"
      by (cases "preprocess L a c opts0") simp_all
    from Cons.prems ok False pre obtain comment' a' where
      cb: "parseComment_node L a (JObj comment) opts1 = Inr (comment', a')"
      by (cases "parseComment_node L a (JObj comment) opts1") auto
    from Cons.prems ok False pre cb have rest: "extract_loop L opts0
        (Some (\<lambda>c t. parseComment_node L t (JObj c) opts1)) cs (res @ [comment']) a'
          = Inr (res', s)"
      by simp
    from parseComment_node_state [OF cb] obtain tk where
      a': "a' = a\<lparr>tokens := tokens a @ tk,
                    emitted := emitted a @ [(''comment'', JObj comment')]\<rparr>"
      by blast
    from Cons.IH [OF rest] obtain news tk' where
      r: "res' = (res @ [comment']) @ news"
      and s: "s = a'\<lparr>tokens := tokens a' @ tk',
                      emitted := emitted a' @ map (\<lambda>c. (''comment'', JObj c)) news\<rparr>"
      by blast
    have "res' = res @ (comment' # news)
        \<and> s = a\<lparr>tokens := tokens a @ (tk @ tk'),
                   emitted := emitted a @ map (\<lambda>c. (''comment'', JObj c)) (comment' # news)\<rparr>"
      using r s a' by simp
    then show ?thesis by blast
  qed
qed

lemma parseComment_node_pipeline:
  assumes "parseComment_node L a comment opts0 = Inr (r, s)"
  shows "same_pipeline s a"
  using parseComment_node_state [OF assms] by (auto simp: same_pipeline_def)

lemma extract_loop_value:
  assumes "options a = options b" and "middleware a = middleware b"
    and "format_insensitive L (merge_options (options b) opts1) a b"
    and "handlers_see_same a b opts0" and "handlers_see_same a b opts1"
  shows "map_sum id fst
           (extract_loop L opts0 (Some (\<lambda>c t. parseComment_node L t (JObj c) opts1)) cs res a)
       = map_sum id fst
           (extract_loop L opts0 (Some (\<lambda>c t. parseComment_node L t (JObj c) opts1)) cs res b)"
  using assms
proof (induction cs arbitrary: res a b)
  case Nil
  then show ?case by simp
next
  case (Cons c cs)
  have v: "isValid L a = isValid L b" using Cons.prems by (intro isValid_cong)
  have p: "preprocess L a c opts0 = preprocess L b c opts0"
    using Cons.prems(1,4) by (rule preprocess_cong)
  show ?case
  proof (cases "isValid L b c opts0")
    case (Inl e)
    then show ?thesis by (simp add: v)
  next
    case ok: (Inr ok)
    show ?thesis
    proof (cases "ok = JBool False")
      case True
      with ok show ?thesis using Cons.IH [OF Cons.prems] by (simp add: v)
    next
      case False
      show ?thesis
      proof (cases "preprocess L b c opts0")
        case (Inl e)
        with ok False show ?thesis by (simp add: v p)
      next
        case pre: (Inr comment)
        have nv: "map_sum id fst (parseComment_node L a (JObj comment) opts1)
                = map_sum id fst (parseComment_node L b (JObj comment) opts1)"
          using Cons.prems(1,2,3,5) by (rule parseComment_node_value)
        show ?thesis
        proof (cases "parseComment_node L b (JObj comment) opts1")
          case (Inl e)
          with nv have "parseComment_node L a (JObj comment) opts1 = Inl e"
            by (cases "parseComment_node L a (JObj comment) opts1") simp_all
          with Inl ok False pre show ?thesis by (simp add: v p)
        next
          case (Inr rb)
          obtain c' b' where rb: "rb = (c', b')" by (cases rb)
          with Inr nv obtain a' where
            ra: "parseComment_node L a (JObj comment) opts1 = Inr (c', a')"
            by (cases "parseComment_node L a (JObj comment) opts1") auto
          from Inr rb have rb': "parseComment_node L b (JObj comment) opts1 = Inr (c', b')"
            by simp
          note pa = parseComment_node_pipeline [OF ra]
          note pb = parseComment_node_pipeline [OF rb']
          have cfg: "options a' = options b'" "middleware a' = middleware b'"
            using pa pb Cons.prems(1,2) by (simp_all add: same_pipeline_def)
          have "format_insensitive L (merge_options (options b) opts1) a' b'"
            using Cons.prems(3) pa pb by (rule format_insensitive_step)
          moreover have "options b' = options b" using pb by (simp add: same_pipeline_def)
          ultimately have fi: "format_insensitive L (merge_options (options b') opts1) a' b'"
            by simp
          have h0: "handlers_see_same a' b' opts0"
            using Cons.prems(4) pa pb by (rule handlers_see_same_step)
          have h1: "handlers_see_same a' b' opts1"
            using Cons.prems(5) pa pb by (rule handlers_see_same_step)
          from Cons.IH [OF cfg fi h0 h1] ra rb' ok False pre show ?thesis
            by (simp add: v p)
        qed
      qed
    qed
  qed
qed

lemma parse_state:
  assumes "parse L a str opts0 = Inr (res, s)"
  shows "\<exists>tk. s = a\<lparr>tokens := tokens a @ tk, ast := res,
                    emitted := emitted a @ map (\<lambda>c. (''comment'', JObj c)) res\<rparr>"
proof -
  from assms obtain cs s0 where
    loop: "extract_loop L opts0 (Some (\<lambda>c t. parseComment_node L t (JObj c) opts0)) cs [] a
             = Inr (res, s0)"
    and s: "s = s0\<lparr>ast := res\<rparr>"
    by (auto simp: parse_def extract_comments_def Let_def andThen_eq_Inr)
  from extract_loop_state [OF loop] obtain tk where
    "s0 = a\<lparr>tokens := tokens a @ tk,
              emitted := emitted a @ map (\<lambda>c. (''comment'', JObj c)) res\<rparr>"
    by auto
  with s have "s = a\<lparr>tokens := tokens a @ tk, ast := res,
                    emitted := emitted a @ map (\<lambda>c. (''comment'', JObj c)) res\<rparr>"
    by simp
  then show ?thesis by blast
qed

lemma parse_pipeline:
  assumes "parse L a str opts0 = Inr (res, s)"
  shows "same_pipeline s a"
  using parse_state [OF assms] by (auto simp: same_pipeline_def)

lemma parse_value:
  assumes "options a = options b" and "middleware a = middleware b"
    and "format_insensitive L (merge_options (options b) opts0) a b"
    and "handlers_see_same a b opts0"
  shows "map_sum id fst (parse L a str opts0) = map_sum id fst (parse L b str opts0)"
proof -
  let ?cb = "Some (\<lambda>c t. parseComment_node L t (JObj c) opts0)"
  note l = extract_loop_value [OF assms(1-4) assms(4)]
  have e: "map_sum id fst (extract_comments L a str opts0 ?cb)
         = map_sum id fst (extract_comments L b str opts0 ?cb)"
  proof (cases "extract_opt (merge_options (options b) opts0)")
    case (Fn f)
    then have s: "self_of a = self_of b" by (rule handlers_see_same_self(6) [OF assms(4)])
    show ?thesis
      unfolding extract_comments_def Let_def assms(1) s Fn
      by (simp add: map_sum_andThen l)
  next
    case Absent
    show ?thesis
      unfolding extract_comments_def Let_def assms(1) Absent
      by (simp add: map_sum_andThen l)
  next
    case (NotFn v)
    show ?thesis
      unfolding extract_comments_def Let_def assms(1) NotFn
      by (simp add: map_sum_andThen l)
  qed
  from map_sum_fst_eq [OF e] show ?thesis
    by (auto simp: parse_def)
qed

lemma parseComment_value:
  assumes "options a = options b" and "middleware a = middleware b"
    and "format_insensitive L (merge_options (options b) opts0) a b"
    and "handlers_see_same a b opts0"
  shows "map_sum id fst (parseComment L a comment opts0)
       = map_sum id fst (parseComment L b comment opts0)"
proof (cases "reaches_parse b comment opts0")
  case False
  then show ?thesis
    using parseComment_node_value [OF assms]
    by (auto simp: parseComment_def reaches_parse_def Let_def assms(1,2)
             split: slot.splits)
next
  case True
  then have ra: "reaches_parse a comment opts0"
    by (simp add: reaches_parse_def assms(1,2))
  let ?opts = "merge_options (options b) opts0"
  let ?k = "\<lambda>(res, t). case res of
                [] \<Rightarrow> Inl (NativeTypeError ''Cannot read properties of undefined'')
              | c # cs \<Rightarrow> finishComment L t c ?opts"
  have a: "parseComment L a comment opts0 = andThen (parse L a (to_string comment) opts0) ?k"
    using ra
    by (auto simp: parseComment_def reaches_parse_def Let_def assms(1,2) split: slot.splits)
  have b: "parseComment L b comment opts0 = andThen (parse L b (to_string comment) opts0) ?k"
    using True by (auto simp: parseComment_def reaches_parse_def Let_def split: slot.splits)
  from map_sum_fst_eq [OF parse_value [OF assms, of "to_string comment"]]
  show ?thesis
  proof (elim disjE exE conjE)
    fix e
    assume "parse L a (to_string comment) opts0 = Inl e"
      and "parse L b (to_string comment) opts0 = Inl e"
    then show ?thesis by (simp add: a b)
  next
    fix res s t
    assume pa: "parse L a (to_string comment) opts0 = Inr (res, s)"
      and pb: "parse L b (to_string comment) opts0 = Inr (res, t)"
    have "map_sum id fst (finishComment L s c ?opts)
        = map_sum id fst (finishComment L t c ?opts)" for c
      using assms(3) parse_pipeline [OF pa] parse_pipeline [OF pb] assms(1,2)
        handlers_see_same_merge [OF assms(4)]
      by (rule finishComment_value_eq)
    then show ?thesis
      by (cases res) (simp_all add: a b pa pb)
  qed
qed

lemma parseComment_pipeline:
  assumes "parseComment L a comment opts0 = Inr (r, s)"
  shows "same_pipeline s a"
proof (cases "reaches_parse a comment opts0")
  case False
  with assms have "parseComment_node L a comment opts0 = Inr (r, s)"
    by (auto simp: parseComment_def reaches_parse_def Let_def split: slot.splits)
  then show ?thesis by (rule parseComment_node_pipeline)
next
  case True
  with assms obtain res t where
    p: "parse L a (to_string comment) opts0 = Inr (res, t)"
    and f: "(case res of
               [] \<Rightarrow> Inl (NativeTypeError ''Cannot read properties of undefined'')
             | c # cs \<Rightarrow> finishComment L t c (merge_options (options a) opts0)) = Inr (r, s)"
    by (auto simp: parseComment_def reaches_parse_def Let_def andThen_eq_Inr split: slot.splits)
  from f obtain c where "finishComment L t c (merge_options (options a) opts0) = Inr (r, s)"
    by (cases res) simp_all
  from finishComment_state [OF this] parse_pipeline [OF p] show ?thesis
    by (simp add: emit_def same_pipeline_def)
qed

lemma parseComment_state:
  assumes "parseComment L a comment opts0 = Inr (r, s)"
  shows "\<exists>tk. s = a\<lparr>tokens := tokens a @ tk,
             ast := (if reaches_parse a comment opts0
                     then nested_comments L a comment opts0 else ast a),
             emitted := emitted a
               @ map (\<lambda>c. (''comment'', JObj c)) (nested_comments L a comment opts0)
               @ [(''comment'', JObj r)]\<rparr>
           \<and> (reaches_parse a comment opts0 \<longrightarrow> nested_comments L a comment opts0 \<noteq> [])"
proof (cases "reaches_parse a comment opts0")
  case False
  with assms have "parseComment_node L a comment opts0 = Inr (r, s)"
    by (auto simp: parseComment_def reaches_parse_def Let_def split: slot.splits)
  from parseComment_node_state [OF this] False show ?thesis
    by (auto simp: nested_comments_def)
next
  case True
  with assms obtain res t where
    p: "parse L a (to_string comment) opts0 = Inr (res, t)"
    and f: "(case res of
               [] \<Rightarrow> Inl (NativeTypeError ''Cannot read properties of undefined'')
             | c # cs \<Rightarrow> finishComment L t c (merge_options (options a) opts0)) = Inr (r, s)"
    by (auto simp: parseComment_def reaches_parse_def Let_def andThen_eq_Inr split: slot.splits)
  from f obtain c cs where res: "res = c # cs"
    and fin: "finishComment L t c (merge_options (options a) opts0) = Inr (r, s)"
    by (cases res) simp_all
  from parse_state [OF p] obtain tk where
    t: "t = a\<lparr>tokens := tokens a @ tk, ast := res,
               emitted := emitted a @ map (\<lambda>c. (''comment'', JObj c)) res\<rparr>"
    by blast
  have n: "nested_comments L a comment opts0 = res"
    using True p by (simp add: nested_comments_def)
  from finishComment_state [OF fin] have "s = emit t ''comment'' (JObj r)" .
  with t n True res show ?thesis by (auto simp: emit_def)
qed

text \<open>
  The events a call of \<^verbatim>\<open>parseComment\<close> that returns has emitted: one \<^verbatim>\<open>comment\<close> event for
  each node the nested calls of line 265 returned, in order, and then one \<^verbatim>\<open>comment\<close>
  event with the node the call returns. There is no nested call when the comment is not
  a string or a \<^verbatim>\<open>comment\<close> handler is registered; there is at least one when line 291 is
  reached.
\<close>

lemma parseComment_events:
  assumes "parseComment L this comment opts0 = Inr (r, s)"
  shows "emitted s = emitted this
            @ map (\<lambda>c. (''comment'', JObj c)) (nested_comments L this comment opts0)
            @ [(''comment'', JObj r)]"
    and "\<not> reaches_parse this comment opts0 \<Longrightarrow> nested_comments L this comment opts0 = []"
    and "reaches_parse this comment opts0 \<Longrightarrow> nested_comments L this comment opts0 \<noteq> []"
proof -
  from parseComment_state [OF assms] obtain tk where
    s: "s = this\<lparr>tokens := tokens this @ tk,
             ast := (if reaches_parse this comment opts0
                     then nested_comments L this comment opts0 else ast this),
             emitted := emitted this
               @ map (\<lambda>c. (''comment'', JObj c)) (nested_comments L this comment opts0)
               @ [(''comment'', JObj r)]\<rparr>"
    and n: "reaches_parse this comment opts0 \<longrightarrow> nested_comments L this comment opts0 \<noteq> []"
    by blast
  from s show "emitted s = emitted this
            @ map (\<lambda>c. (''comment'', JObj c)) (nested_comments L this comment opts0)
            @ [(''comment'', JObj r)]"
    by simp
  show "\<not> reaches_parse this comment opts0 \<Longrightarrow> nested_comments L this comment opts0 = []"
    by (simp add: nested_comments_def)
  from n show "reaches_parse this comment opts0 \<Longrightarrow> nested_comments L this comment opts0 \<noteq> []"
    by simp
qed

text \<open>
  Claim C8, at the input where the code departs from it. On a new instance the call
  \<^verbatim>\<open>parseComment('/** Desc */')\<close> produces one comment node and emits two \<^verbatim>\<open>comment\<close> events
  with it: line 291 has \<^verbatim>\<open>parse\<close> call \<^verbatim>\<open>parseComment\<close> on the extracted comment (line 265),
  which runs lines 307-320 and emits, and the outer call then runs lines 307-320 again
  on the node that is already finished and emits a second time. The claim has one event
  for each comment produced, which is what the same comment gives when it is passed as
  an object.
\<close>

theorem string_comment_notified_twice:
  "map_sum id (\<lambda>(r, s). (r, emitted s))
     (parseComment spec_lib (new_Comments no_options) (JStr ''/** Desc */'') no_options)
   = Inr ([(''type'', JStr ''BlockComment''), (''raw'', JStr ''/** Desc */''),
           (''value'', JStr ''* Desc ''), (''code'', JObj [(''context'', JObj [])]),
           (''description'', JStr ''Desc ''), (''tags'', JArr []),
           (''examples'', JArr []), (''inlineTags'', JArr [])],
          [(''comment'',
            JObj [(''type'', JStr ''BlockComment''), (''raw'', JStr ''/** Desc */''),
                  (''value'', JStr ''* Desc ''), (''code'', JObj [(''context'', JObj [])]),
                  (''description'', JStr ''Desc ''), (''tags'', JArr []),
                  (''examples'', JArr []), (''inlineTags'', JArr [])]),
           (''comment'',
            JObj [(''type'', JStr ''BlockComment''), (''raw'', JStr ''/** Desc */''),
                  (''value'', JStr ''* Desc ''), (''code'', JObj [(''context'', JObj [])]),
                  (''description'', JStr ''Desc ''), (''tags'', JArr []),
                  (''examples'', JArr []), (''inlineTags'', JArr [])])])
   \<and> map_sum id (\<lambda>(r, s). (r, emitted s))
     (parseComment spec_lib (new_Comments no_options)
        (JObj [(''type'', JStr ''BlockComment''), (''raw'', JStr ''/** Desc */''),
               (''value'', JStr ''* Desc ''), (''code'', JObj [(''context'', JObj [])])])
        no_options)
   = Inr ([(''type'', JStr ''BlockComment''), (''raw'', JStr ''/** Desc */''),
           (''value'', JStr ''* Desc ''), (''code'', JObj [(''context'', JObj [])]),
           (''description'', JStr ''Desc ''), (''tags'', JArr []),
           (''examples'', JArr []), (''inlineTags'', JArr [])],
          [(''comment'',
            JObj [(''type'', JStr ''BlockComment''), (''raw'', JStr ''/** Desc */''),
                  (''value'', JStr ''* Desc ''), (''code'', JObj [(''context'', JObj [])]),
                  (''description'', JStr ''Desc ''), (''tags'', JArr []),
                  (''examples'', JArr []), (''inlineTags'', JArr [])])])"
  by (intro conjI; code_simp)

text \<open>
  Claim C9. When a call of \<^verbatim>\<open>parseComment\<close> has returned a node, a second call on the same
  comment with the same options, on the instance as the first call left it or in any
  state with the same registrations, returns and returns an equal node. Registered
  functions and collaborators are functions of their arguments here, the handlers also
  of the registrations of the instance they are called with; \<^verbatim>\<open>lib.format\<close>, which is
  given the instance when \<^verbatim>\<open>opts.format\<close> is \<^verbatim>\<open>true\<close>, is taken to read only the
  registrations from it.
\<close>

theorem parseComment_deterministic:
  assumes "parseComment L this comment opts0 = Inr (r, s)"
    and "same_pipeline s s'"
    and "fld (settings (merge_options (options this) opts0)) ''format'' = JBool True
           \<longrightarrow> reads_pipeline_only (format L)"
  shows "\<exists>s''. parseComment L s' comment opts0 = Inr (r, s'')"
proof -
  have p: "same_pipeline s' this"
    using parseComment_pipeline [OF assms(1)] assms(2) by (simp add: same_pipeline_def)
  then have c: "options s' = options this" "middleware s' = middleware this"
    by (simp_all add: same_pipeline_def)
  have fi: "format_insensitive L (merge_options (options this) opts0) s' this"
    unfolding format_insensitive_def
  proof (intro impI allI)
    fix x y
    assume f: "fld (settings (merge_options (options this) opts0)) ''format'' = JBool True"
      and x: "same_pipeline x s'" and y: "same_pipeline y this"
    from assms(3) f have "\<forall>a b. same_pipeline a b \<longrightarrow> format L a = format L b"
      by (simp add: reads_pipeline_only_def)
    moreover have "same_pipeline x y" using x y p by (simp add: same_pipeline_def)
    ultimately show "format L x = format L y" by blast
  qed
  have hs: "handlers_see_same s' this opts0"
    using p by (simp add: handlers_see_same_def same_pipeline_def self_of_def)
  from parseComment_value [OF c fi hs, of comment] assms(1)
  have "map_sum id fst (parseComment L s' comment opts0) = Inr r" by simp
  then show ?thesis by (cases "parseComment L s' comment opts0") auto
qed

theorem parseComment_deterministic_witness:
  "\<exists>s s'. parseComment spec_lib (new_Comments no_options)
            (JObj [(''value'', JStr ''Desc'')]) no_options
          = Inr ([(''value'', JStr ''Desc''), (''description'', JStr ''Desc''),
                  (''tags'', JArr []), (''examples'', JArr []), (''inlineTags'', JArr [])], s)
        \<and> same_pipeline s s
        \<and> parseComment spec_lib s (JObj [(''value'', JStr ''Desc'')]) no_options
          = Inr ([(''value'', JStr ''Desc''), (''description'', JStr ''Desc''),
                  (''tags'', JArr []), (''examples'', JArr []), (''inlineTags'', JArr [])], s')"
proof -
  let ?inst = "new_Comments no_options"
  let ?c = "JObj [(''value'', JStr ''Desc'')]"
  let ?r = "[(''value'', JStr ''Desc''), (''description'', JStr ''Desc''),
             (''tags'', JArr []), (''examples'', JArr []), (''inlineTags'', JArr [])]"
  have "map_sum id fst (parseComment spec_lib ?inst ?c no_options) = Inr ?r"
    by code_simp
  then obtain s where ps: "parseComment spec_lib ?inst ?c no_options = Inr (?r, s)"
    by (cases "parseComment spec_lib ?inst ?c no_options") auto
  have same: "same_pipeline s s" by (simp add: same_pipeline_def)
  have fmt: "fld (settings (merge_options (options ?inst) no_options)) ''format'' = JBool True
               \<longrightarrow> reads_pipeline_only (format spec_lib)"
    by (simp add: reads_pipeline_only_def spec_lib_def)
  from parseComment_deterministic [OF ps same fmt] obtain s' where
    "parseComment spec_lib s ?c no_options = Inr (?r, s')"
    by blast
  with ps same show ?thesis by blast
qed



text \<open>
  A handler is called with the instance and can run the chains itself: with the \<^verbatim>\<open>tag\<close>
  handler that returns \<^verbatim>\<open>this.run('before')(node)\<close>, the name of the tag is in upper case
  when the handler of \<open>hooked\<close> is registered and as written when it is not.
\<close>

lemma hooks_reached_through_handler:
  "map_sum id (\<lambda>(r, s). fld r ''tags'')
     (parseComment spec_lib (with_running_tag hooked)
        (JObj [(''value'', JStr ''@param x'')]) no_options)
   = Inr (JArr [JObj [(''type'', JStr ''param''), (''name'', JStr ''X''),
                      (''rawType'', JUndefined), (''raw'', JStr ''@param x'')]])"
  "map_sum id (\<lambda>(r, s). fld r ''tags'')
     (parseComment spec_lib (with_running_tag (new_Comments no_options))
        (JObj [(''value'', JStr ''@param x'')]) no_options)
   = Inr (JArr [JObj [(''type'', JStr ''param''), (''name'', JStr ''x''),
                      (''rawType'', JUndefined), (''raw'', JStr ''@param x'')]])"
  by code_simp+


end
